theory Spec2Isabelle
  imports Complex_Main "HOL-Library.AList" "HOL-Library.Log_Nat" "HOL-Library.Multiset"
    "HOL-Library.Sublist"
begin

section \<open>Values of the host language\<close>

text \<open>
  The module \<^verbatim>\<open>core/lib/stats2.js\<close> keeps its state in plain JavaScript objects. A plain
  object is modelled as an association list in the order in which its keys were first
  assigned (the order in which \<^verbatim>\<open>L.each\<close> and \<^verbatim>\<open>JSON.stringify\<close> visit them);
  \<open>map_of\<close> reads a property (\<open>None\<close> is \<^verbatim>\<open>undefined\<close>) and \<open>AList.update\<close> assigns one:
  an existing key keeps its place, a new key goes to the end.

  Counter values are JavaScript numbers, which are doubles. The counters hold counts, so
  they are modelled as \<open>int\<close>, an integer standing for the double of that value; the sum
  of two of them is rounded as the addition of doubles rounds it (section Numbers). The
  numbers a histogram answers with, and everything computed from them, are modelled as
  \<open>rat\<close>.

  Outside the model: keys that JavaScript treats specially (array indices, which are
  enumerated first; \<^verbatim>\<open>__proto__\<close> and the names inherited from \<^verbatim>\<open>Object.prototype\<close>,
  which read as truthy before they are assigned), a counters object that lodash iterates
  as an array (one with a key \<^verbatim>\<open>length\<close>), numbers that are not finite, and the
  \<^verbatim>\<open>timestamp\<close> of a report, which is the wall clock. The theorems that depend on it
  say so in their hypotheses (\<open>ordinary_name\<close>).
\<close>

type_synonym 'v obj = "(string \<times> 'v) list"

text \<open>What \<^verbatim>\<open>JSON.parse\<close> returns.\<close>

datatype json =
    JNull
  | JBool bool
  | JNum rat
  | JStr string
  | JArr "json list"
  | JObj "(string \<times> json) list"

text \<open>The errors the module lets escape to its caller.\<close>

datatype error =
    SyntaxError   \<comment> \<open>\<^verbatim>\<open>JSON.parse\<close> rejected the text\<close>
  | TypeError     \<comment> \<open>a property of \<^verbatim>\<open>undefined\<close> or \<^verbatim>\<open>null\<close> was read\<close>
  | DecodeError   \<comment> \<open>the histogram decoder rejected its argument\<close>

section \<open>The platform: JSON and the histogram library\<close>

text \<open>
  \<^verbatim>\<open>JSON\<close> and \<^verbatim>\<open>hdr-histogram-js\<close> are not part of the module. Every function below takes
  them as a parameter: a record of the operations the module calls, over a type \<open>'h\<close> of
  histogram states. \<open>hdr_build\<close> is \<^verbatim>\<open>HdrHistogram.build\<close> at the one configuration the
  module uses (64-bit buckets, auto resize, lowest discernible value 2, highest trackable
  value \<open>10 ^ 12\<close>, one significant digit). Recorded samples are natural numbers.
\<close>

record 'h platform =
  JSON_parse :: "string \<Rightarrow> json option"
  JSON_stringify :: "json \<Rightarrow> string"
  hdr_build :: "'h"
  hdr_recordValue :: "'h \<Rightarrow> nat \<Rightarrow> 'h"
  hdr_add :: "'h \<Rightarrow> 'h \<Rightarrow> 'h"
  hdr_minNonZeroValue :: "'h \<Rightarrow> rat"
  hdr_maxValue :: "'h \<Rightarrow> rat"
  hdr_getValueAtPercentile :: "'h \<Rightarrow> nat \<Rightarrow> rat"
  hdr_encodeIntoBase64String :: "'h \<Rightarrow> string"
  hdr_decodeFromCompressedBase64 :: "string \<Rightarrow> 'h option"

section \<open>Numbers\<close>

text \<open>
  A finite double is modelled by the rational number it stands for. \<open>to_double x\<close> is the
  double nearest to \<open>x\<close>, and of two equally near doubles the one with the even
  significand: the rounding that ends every arithmetic operation on doubles. A double has
  a significand of 53 bits, so between \<open>2 ^ e\<close> and \<open>2 ^ (e + 1)\<close> the doubles are the
  multiples of \<open>2 ^ (e - 52)\<close>, and below \<open>2 ^ - 1022\<close> those of \<open>2 ^ - 1074\<close>. A result
  of magnitude \<open>2 ^ 1024\<close> or more is \<^verbatim>\<open>Infinity\<close> in JavaScript and has no value here.
\<close>

text \<open>The exponent \<open>e\<close> with \<open>2 ^ e \<le> \<bar>x\<bar> < 2 ^ (e + 1)\<close>, for \<open>x\<close> other than \<open>0\<close>.\<close>

definition ilog2 :: "rat \<Rightarrow> int" where
  "ilog2 x =
     (if 1 \<le> \<bar>x\<bar> then bitlen \<lfloor>\<bar>x\<bar>\<rfloor> - 1 else - bitlen (\<lceil>1 / \<bar>x\<bar>\<rceil> - 1))"

definition round_half_even :: "rat \<Rightarrow> int" where
  "round_half_even y =
     (let n = \<lfloor>y\<rfloor>; r = y - of_int n
      in if r < 1 / 2 then n else if 1 / 2 < r then n + 1 else if even n then n else n + 1)"

definition to_double :: "rat \<Rightarrow> rat" where
  "to_double x =
     (if x = 0 then 0
      else let u = 2 powi (max (ilog2 x) (- 1022) - 52)
           in of_int (round_half_even (x / u)) * u)"

text \<open>The rational \<open>x\<close> is a finite double.\<close>

definition is_double :: "rat \<Rightarrow> bool" where
  "is_double x = (to_double x = x \<and> \<bar>x\<bar> < 2 ^ 1024)"

text \<open>
  \<^verbatim>\<open>a + b\<close> on two counter values: the exact sum, rounded. The sum of two integers
  rounds to an integer.
\<close>

definition double_add :: "int \<Rightarrow> int \<Rightarrow> int" where
  "double_add a b = \<lfloor>to_double (of_int a + of_int b)\<rfloor>"

section \<open>The snapshot\<close>

text \<open>
  A \<^verbatim>\<open>Stats\<close> object: \<^verbatim>\<open>_counters\<close>, \<^verbatim>\<open>_customStats\<close> and, once \<^verbatim>\<open>serialize\<close> has run,
  \<^verbatim>\<open>_encodedHistograms\<close>.
\<close>

record 'h stats =
  s_counters :: "int obj"
  s_customStats :: "'h obj"
  s_encodedHistograms :: "string obj option"

text \<open>\<^verbatim>\<open>Stats.prototype.reset\<close>: both mappings are replaced by empty objects.\<close>

definition reset :: "'h stats \<Rightarrow> 'h stats" where
  "reset this = this\<lparr>s_customStats := [], s_counters := []\<rparr>"

text \<open>\<^verbatim>\<open>create\<close>: \<^verbatim>\<open>new Stats()\<close>, whose constructor is \<^verbatim>\<open>reset\<close> on a new object.\<close>

definition create :: "'h stats" where
  "create = reset \<lparr>s_counters = [], s_customStats = [], s_encodedHistograms = None\<rparr>"

text \<open>
  \<^verbatim>\<open>if (!c[name]) { c[name] = 0; }  c[name] += value;\<close> on a counters object \<open>c\<close>, as
  written in \<^verbatim>\<open>counter\<close> and in \<^verbatim>\<open>combine\<close>. \<^verbatim>\<open>!x\<close> holds of \<^verbatim>\<open>undefined\<close> and of \<open>0\<close>.
\<close>

definition falsy :: "int option \<Rightarrow> bool" where
  "falsy x = (x = None \<or> x = Some 0)"

definition add_to_counter :: "string \<Rightarrow> int \<Rightarrow> int obj \<Rightarrow> int obj" where
  "add_to_counter name value c =
     (let c0 = (if falsy (map_of c name) then AList.update name 0 c else c)
      in case map_of c0 name of
           Some old \<Rightarrow> AList.update name (double_add old value) c0
         | None \<Rightarrow> c0)"

text \<open>\<^verbatim>\<open>Stats.prototype.counter\<close>.\<close>

definition counter :: "string \<Rightarrow> int \<Rightarrow> 'h stats \<Rightarrow> 'h stats" where
  "counter name value this =
     this\<lparr>s_counters := add_to_counter name value (s_counters this)\<rparr>"

text \<open>
  \<^verbatim>\<open>if (!m[name]) { m[name] = HdrHistogram.build({...}); }\<close> on an object \<open>m\<close> of
  histograms, as written in \<^verbatim>\<open>addCustomStat\<close> and in \<^verbatim>\<open>combine\<close>. A histogram is an
  object, so \<^verbatim>\<open>!m[name]\<close> holds only of a missing entry.
\<close>

definition ensure_histogram :: "'h platform \<Rightarrow> string \<Rightarrow> 'h obj \<Rightarrow> 'h obj" where
  "ensure_histogram env name m =
     (case map_of m name of
        None \<Rightarrow> AList.update name (hdr_build env) m
      | Some _ \<Rightarrow> m)"

text \<open>\<^verbatim>\<open>m[name].f(...)\<close> for a method \<open>f\<close> that changes the histogram it is called on.\<close>

definition on_histogram :: "string \<Rightarrow> ('h \<Rightarrow> 'h) \<Rightarrow> 'h obj \<Rightarrow> 'h obj" where
  "on_histogram name f m =
     (case map_of m name of
        Some h \<Rightarrow> AList.update name (f h) m
      | None \<Rightarrow> m)"

text \<open>\<^verbatim>\<open>Stats.prototype.addCustomStat\<close>.\<close>

definition addCustomStat :: "'h platform \<Rightarrow> string \<Rightarrow> nat \<Rightarrow> 'h stats \<Rightarrow> 'h stats" where
  "addCustomStat env name n this =
     this\<lparr>s_customStats :=
       on_histogram name (\<lambda>h. hdr_recordValue env h n)
         (ensure_histogram env name (s_customStats this))\<rparr>"

text \<open>\<^verbatim>\<open>Stats.prototype.free\<close> returns its object as it is.\<close>

definition free :: "'h stats \<Rightarrow> 'h stats" where
  "free this = this"

section \<open>Rounding\<close>

text \<open>
  \<^verbatim>\<open>round(number, decimals)\<close>: \<^verbatim>\<open>Math.round(number * m) / m\<close> with
  \<^verbatim>\<open>m = Math.pow(10, decimals)\<close>. \<^verbatim>\<open>Math.round\<close> returns the nearest integer, and of two
  equally near integers the greater one: \<open>\<lfloor>x + 1/2\<rfloor>\<close>. The product and the quotient
  are operations on doubles, so each is rounded; the power of ten is itself a double for
  \<open>decimals\<close> up to 22, and \<^verbatim>\<open>report\<close> passes 1.
\<close>

definition Math_round :: "rat \<Rightarrow> int" where
  "Math_round x = \<lfloor>x + 1 / 2\<rfloor>"

definition round_dec :: "rat \<Rightarrow> nat \<Rightarrow> rat" where
  "round_dec number decimals =
     (let m = 10 ^ decimals
      in to_double (of_int (Math_round (to_double (number * m))) / m))"

text \<open>
  The rule as the specification words it: multiply by \<open>10 ^ d\<close>, round to the nearest
  integer with ties away from zero, divide by \<open>10 ^ d\<close>, all three on the numbers
  themselves.
\<close>

definition round_half_away :: "rat \<Rightarrow> nat \<Rightarrow> rat" where
  "round_half_away x d = sgn x * of_int \<lfloor>\<bar>x\<bar> * 10 ^ d + 1 / 2\<rfloor> / 10 ^ d"

section \<open>Strings\<close>

text \<open>\<^verbatim>\<open>name.startsWith(p)\<close>.\<close>

definition startsWith :: "string \<Rightarrow> string \<Rightarrow> bool" where
  "startsWith name p = prefix p name"

text \<open>
  \<^verbatim>\<open>s.split(sep)\<close> for a non-empty separator: the pieces of \<open>s\<close> between the occurrences
  of \<open>sep\<close>, found from left to right without overlap.
\<close>

fun str_split :: "string \<Rightarrow> string \<Rightarrow> string list" where
  "str_split sep [] = [[]]"
| "str_split sep (c # cs) =
     (if prefix sep (c # cs) then [] # str_split sep (drop (length sep - 1) cs)
      else (case str_split sep cs of
              p # ps \<Rightarrow> (c # p) # ps
            | [] \<Rightarrow> [[c]]))"

text \<open>
  \<^verbatim>\<open>pieces[1]\<close> used as a property name: an array read out of range is \<^verbatim>\<open>undefined\<close>,
  and as a property name \<^verbatim>\<open>undefined\<close> is the string \<^verbatim>\<open>"undefined"\<close>.
\<close>

definition second_as_key :: "string list \<Rightarrow> string" where
  "second_as_key pieces = (if 1 < length pieces then pieces ! 1 else ''undefined'')"

section \<open>The report\<close>

record latency =
  l_min :: rat
  l_max :: rat
  l_median :: rat
  l_p95 :: rat
  l_p99 :: rat

record summary =
  c_min :: rat
  c_max :: rat
  c_median :: rat
  c_p75 :: rat
  c_p95 :: rat
  c_p99 :: rat

text \<open>
  The object \<^verbatim>\<open>report\<close> returns, without its \<^verbatim>\<open>timestamp\<close>. A field read from a
  counter is \<open>None\<close> where the counter is \<^verbatim>\<open>undefined\<close>; the mean of \<open>rps\<close> is \<open>None\<close>
  where the division is \<^verbatim>\<open>undefined / 10\<close>, which is \<^verbatim>\<open>NaN\<close>.
\<close>

record rps =
  rps_count :: "int option"
  rps_mean :: "rat option"

record report =
  scenariosCreated :: "int option"
  scenarioCounts :: "int obj"
  scenariosCompleted :: "int option"
  requestsCompleted :: "int option"
  latency :: latency
  rps :: rps
  errors :: "int obj"
  codes :: "int obj"
  matches :: "int option"
  customStats :: "summary obj"
  counters :: "int obj"
  scenariosAvoided :: "int option"

text \<open>
  The three loops of \<^verbatim>\<open>report\<close> over the counters have one shape:
  \<^verbatim>\<open>L.each(this._counters, (count, name) => { if (name.startsWith(p)) {
  result.f[name.split(sep)[1]] = count; } })\<close>.
\<close>

definition collect :: "string \<Rightarrow> string \<Rightarrow> int obj \<Rightarrow> int obj" where
  "collect p sep c =
     foldl (\<lambda>acc (name, count).
              if startsWith name p
              then AList.update (second_as_key (str_split sep name)) count acc
              else acc)
       [] c"

text \<open>
  \<^verbatim>\<open>L.each(m, (v, name) => { result[name] = f(v); })\<close> into an empty \<open>result\<close>.
\<close>

definition each_into :: "('a \<Rightarrow> 'b) \<Rightarrow> 'a obj \<Rightarrow> 'b obj" where
  "each_into f m = foldl (\<lambda>acc (name, v). AList.update name (f v) acc) [] m"

definition latency_of :: "'h platform \<Rightarrow> 'h \<Rightarrow> latency" where
  "latency_of env ns =
     \<lparr>l_min = round_dec (hdr_minNonZeroValue env ns) 1,
      l_max = round_dec (hdr_maxValue env ns) 1,
      l_median = round_dec (hdr_getValueAtPercentile env ns 50) 1,
      l_p95 = round_dec (hdr_getValueAtPercentile env ns 95) 1,
      l_p99 = round_dec (hdr_getValueAtPercentile env ns 99) 1\<rparr>"

definition summary_of :: "'h platform \<Rightarrow> 'h \<Rightarrow> summary" where
  "summary_of env ns =
     \<lparr>c_min = round_dec (hdr_minNonZeroValue env ns) 1,
      c_max = round_dec (hdr_maxValue env ns) 1,
      c_median = round_dec (hdr_getValueAtPercentile env ns 50) 1,
      c_p75 = round_dec (hdr_getValueAtPercentile env ns 75) 1,
      c_p95 = round_dec (hdr_getValueAtPercentile env ns 95) 1,
      c_p99 = round_dec (hdr_getValueAtPercentile env ns 99) 1\<rparr>"

text \<open>
  \<^verbatim>\<open>Stats.prototype.report\<close>. It reads \<^verbatim>\<open>ns.minNonZeroValue\<close> of
  \<^verbatim>\<open>ns = this._customStats['engine.http.response_time']\<close> without a test, which raises
  a \<^verbatim>\<open>TypeError\<close> when the snapshot has no such histogram. The divisor of the mean
  of \<open>rps\<close> is the literal \<open>10\<close> of the source.
\<close>

definition report :: "'h platform \<Rightarrow> 'h stats \<Rightarrow> error + report" where
  "report env this =
     (case map_of (s_customStats this) ''engine.http.response_time'' of
        None \<Rightarrow> Inl TypeError
      | Some ns \<Rightarrow>
          Inr \<lparr>scenariosCreated = map_of (s_counters this) ''scenarios.created'',
               scenarioCounts =
                 collect ''scenarios.created.'' ''scenarios.created.'' (s_counters this),
               scenariosCompleted = map_of (s_counters this) ''scenarios.completed'',
               requestsCompleted =
                 map_of (s_counters this) ''engine.http.responses_received'',
               latency = latency_of env ns,
               rps =
                 \<lparr>rps_count = map_of (s_counters this) ''engine.http.responses_received'',
                  rps_mean =
                    map_option (\<lambda>n. of_int n / 10)
                      (map_of (s_counters this) ''engine.http.responses_received'')\<rparr>,
               errors = collect ''errors.'' ''errors.'' (s_counters this),
               codes = collect ''engine.http.response_code'' ''response_code.'' (s_counters this),
               matches = map_of (s_counters this) ''matches'',
               customStats = each_into (summary_of env) (s_customStats this),
               counters = s_counters this,
               scenariosAvoided = map_of (s_counters this) ''scenarios.skipped''\<rparr>)"

section \<open>Combining snapshots\<close>



section \<open>Serialization\<close>

text \<open>
  The object \<^verbatim>\<open>serialize\<close> hands to \<^verbatim>\<open>JSON.stringify\<close>:
  \<^verbatim>\<open>{counters: this._counters, encodedHistograms: this._encodedHistograms}\<close>.
\<close>

definition payload :: "int obj \<Rightarrow> string obj \<Rightarrow> json" where
  "payload c enc =
     JObj [(''counters'', JObj (map (\<lambda>(name, v). (name, JNum (of_int v))) c)),
           (''encodedHistograms'', JObj (map (\<lambda>(name, e). (name, JStr e)) enc))]"

text \<open>
  \<^verbatim>\<open>Stats.prototype.serialize\<close>: it stores the encoded histograms on the snapshot as
  \<^verbatim>\<open>_encodedHistograms\<close> and returns the text; the result is the text and the snapshot
  after the call.
\<close>

definition serialize :: "'h platform \<Rightarrow> 'h stats \<Rightarrow> string \<times> 'h stats" where
  "serialize env this =
     (let enc = each_into (hdr_encodeIntoBase64String env) (s_customStats this)
      in (JSON_stringify env (payload (s_counters this) enc),
          this\<lparr>s_encodedHistograms := Some enc\<rparr>))"

text \<open>
  \<^verbatim>\<open>deserialize\<close> assigns \<^verbatim>\<open>o.counters\<close> to \<^verbatim>\<open>_counters\<close> whatever it is, so the
  snapshot it returns is typed apart: its counters are any JSON value, or \<^verbatim>\<open>undefined\<close>
  (\<open>None\<close>).
\<close>

record 'h parsed_stats =
  p_counters :: "json option"
  p_customStats :: "'h obj"

text \<open>
  \<^verbatim>\<open>o.encodedHistograms\<close> and \<^verbatim>\<open>o.counters\<close> for a parsed value \<open>o\<close>: reading a property
  of \<^verbatim>\<open>null\<close> raises a \<^verbatim>\<open>TypeError\<close>; an object has the property or not; a number, a
  string, a boolean and an array have no property of either name.
\<close>

fun get_property :: "json \<Rightarrow> string \<Rightarrow> error + json option" where
  "get_property JNull name = Inl TypeError"
| "get_property (JObj kvs) name = Inr (map_of kvs name)"
| "get_property _ name = Inr None"

text \<open>An array index as a property name: its decimal numeral.\<close>

fun decimal :: "nat \<Rightarrow> string" where
  "decimal n =
     (if n < 10 then [''0123456789'' ! n]
      else decimal (n div 10) @ [''0123456789'' ! (n mod 10)])"

text \<open>
  lodash iterates a collection as an array when it is \<^verbatim>\<open>isArrayLike\<close>: an array, a
  string, or an object whose \<^verbatim>\<open>length\<close> is a number that is an integer from \<open>0\<close> to
  \<^verbatim>\<open>Number.MAX_SAFE_INTEGER\<close>. The length of such an object:
\<close>

definition array_like_length :: "(string \<times> json) list \<Rightarrow> nat option" where
  "array_like_length kvs =
     (case map_of kvs ''length'' of
        Some (JNum q) \<Rightarrow>
          (if of_int \<lfloor>q\<rfloor> = q \<and> 0 \<le> q \<and> q \<le> 9007199254740991 then Some (nat \<lfloor>q\<rfloor>)
           else None)
      | _ \<Rightarrow> None)"

text \<open>
  The pairs \<^verbatim>\<open>L.reduce(collection, (acc, value, name) => ..., {})\<close> visits: the
  properties of an object; for an array, a string and an array-like object the indices
  below its length, each with what the collection holds at that index, which for an
  object may be \<^verbatim>\<open>undefined\<close> (\<open>None\<close>); and nothing for any other value.
\<close>

fun entries :: "json option \<Rightarrow> (string \<times> json option) list" where
  "entries (Some (JObj kvs)) =
     (case array_like_length kvs of
        Some n \<Rightarrow> map (\<lambda>i. (decimal i, map_of kvs (decimal i))) [0..<n]
      | None \<Rightarrow> map (\<lambda>(name, v). (name, Some v)) kvs)"
| "entries (Some (JArr xs)) = zip (map decimal [0..<length xs]) (map Some xs)"
| "entries (Some (JStr s)) = zip (map decimal [0..<length s]) (map (\<lambda>c. Some (JStr [c])) s)"
| "entries _ = []"

text \<open>
  \<^verbatim>\<open>HdrHistogram.decodeFromCompressedBase64(encodedHisto)\<close>: the decoder takes a string
  and raises on one it cannot decode, and on a value that is not a string.
\<close>

fun decode_value :: "'h platform \<Rightarrow> json option \<Rightarrow> error + 'h" where
  "decode_value env (Some (JStr e)) =
     (case hdr_decodeFromCompressedBase64 env e of
        Some h \<Rightarrow> Inr h
      | None \<Rightarrow> Inl DecodeError)"
| "decode_value env _ = Inl TypeError"

text \<open>The reduction \<^verbatim>\<open>acc[name] = decode(encodedHisto)\<close>, which stops at the first error.\<close>

fun decode_all ::
  "'h platform \<Rightarrow> (string \<times> json option) list \<Rightarrow> 'h obj \<Rightarrow> error + 'h obj" where
  "decode_all env [] acc = Inr acc"
| "decode_all env ((name, v) # rest) acc =
     (case decode_value env v of
        Inl e \<Rightarrow> Inl e
      | Inr h \<Rightarrow> decode_all env rest (AList.update name h acc))"

text \<open>\<^verbatim>\<open>deserialize\<close>.\<close>

definition deserialize :: "'h platform \<Rightarrow> string \<Rightarrow> error + 'h parsed_stats" where
  "deserialize env serialized =
     (case JSON_parse env serialized of
        None \<Rightarrow> Inl SyntaxError
      | Some o' \<Rightarrow>
          (case get_property o' ''encodedHistograms'' of
             Inl e \<Rightarrow> Inl e
           | Inr eh \<Rightarrow>
               (case decode_all env (entries eh) [] of
                  Inl e \<Rightarrow> Inl e
                | Inr histos \<Rightarrow>
                    (case get_property o' ''counters'' of
                       Inl e \<Rightarrow> Inl e
                     | Inr c \<Rightarrow> Inr \<lparr>p_counters = c, p_customStats = histos\<rparr>))))"

text \<open>
  A deserialized snapshot is a snapshot of counters when its \<^verbatim>\<open>_counters\<close> is an object of
  integers.
\<close>

fun number_of :: "json \<Rightarrow> int option" where
  "number_of (JNum q) = (if of_int \<lfloor>q\<rfloor> = q then Some \<lfloor>q\<rfloor> else None)"
| "number_of _ = None"

fun counters_of :: "json option \<Rightarrow> int obj option" where
  "counters_of (Some (JObj kvs)) =
     those (map (\<lambda>(name, v). map_option (Pair name) (number_of v)) kvs)"
| "counters_of _ = None"

definition as_stats :: "'h parsed_stats \<Rightarrow> 'h stats option" where
  "as_stats p =
     map_option
       (\<lambda>c. \<lparr>s_counters = c, s_customStats = p_customStats p, s_encodedHistograms = None\<rparr>)
       (counters_of (p_counters p))"

section \<open>Snapshots built through the interface\<close>

datatype call = Counter string int | AddCustomStat string nat

fun apply_call :: "'h platform \<Rightarrow> 'h stats \<Rightarrow> call \<Rightarrow> 'h stats" where
  "apply_call env this (Counter name delta) = counter name delta this"
| "apply_call env this (AddCustomStat name n) = addCustomStat env name n this"

fun call_name :: "call \<Rightarrow> string" where
  "call_name (Counter name delta) = name"
| "call_name (AddCustomStat name n) = name"

fun call_delta :: "call \<Rightarrow> int" where
  "call_delta (Counter name delta) = delta"
| "call_delta (AddCustomStat name n) = 0"

text \<open>The snapshot \<^verbatim>\<open>create()\<close> returns, after a sequence of calls on it.\<close>

definition built :: "'h platform \<Rightarrow> call list \<Rightarrow> 'h stats" where
  "built env calls = foldl (apply_call env) create calls"

section \<open>Reading the objects\<close>



text \<open>The values a list of entries holds under one name, in the order of the list.\<close>

definition values_of :: "string \<Rightarrow> 'v obj \<Rightarrow> 'v list" where
  "values_of name m = map snd (filter (\<lambda>kv. fst kv = name) m)"

text \<open>
  The names under which the model of an object is the object. \<^verbatim>\<open>x[name]\<close> on an object
  without that key reads \<^verbatim>\<open>Object.prototype\<close>, so for the names below \<^verbatim>\<open>!x[name]\<close> is
  false before the first assignment; and an object with a number under \<^verbatim>\<open>length\<close> is
  iterated by \<^verbatim>\<open>L.each\<close> as an array.
\<close>

definition special_names :: "string list" where
  "special_names =
     [''length'', ''__proto__'', ''constructor'', ''hasOwnProperty'', ''isPrototypeOf'',
      ''propertyIsEnumerable'', ''toLocaleString'', ''toString'', ''valueOf'',
      ''__defineGetter__'', ''__defineSetter__'', ''__lookupGetter__'', ''__lookupSetter__'']"

definition ordinary_name :: "string \<Rightarrow> bool" where
  "ordinary_name name = (name \<notin> set special_names)"


text \<open>
  A sequence of calls under ordinary names whose counter increments stay, whatever their
  signs, within the integers that doubles count exactly.
\<close>

definition ordinary_calls :: "call list \<Rightarrow> bool" where
  "ordinary_calls calls =
     (list_all (\<lambda>c. ordinary_name (call_name c)) calls \<and>
      (\<Sum>c\<leftarrow>calls. \<bar>call_delta c\<bar>) \<le> 2 ^ 53)"

text \<open>
  What \<^verbatim>\<open>deserialize\<close> iterates over: the value of \<^verbatim>\<open>o.encodedHistograms\<close>, where a
  value without that property gives \<^verbatim>\<open>undefined\<close>.
\<close>

definition encoded_of :: "json \<Rightarrow> json option" where
  "encoded_of o' = (case get_property o' ''encodedHistograms'' of Inl e \<Rightarrow> None | Inr eh \<Rightarrow> eh)"

text \<open>Some value that \<^verbatim>\<open>deserialize\<close> hands to the decoder is rejected by it.\<close>

definition undecodable :: "'h platform \<Rightarrow> json \<Rightarrow> bool" where
  "undecodable env o' = list_ex (\<lambda>kv. isl (decode_value env (snd kv))) (entries (encoded_of o'))"

text \<open>
  The payload format as the specification words it: an object with a \<^verbatim>\<open>counters\<close> field,
  a mapping from strings to numbers, and an \<^verbatim>\<open>encodedHistograms\<close> field, a mapping from
  strings to strings.
\<close>

fun is_string :: "json \<Rightarrow> bool" where
  "is_string (JStr s) = True"
| "is_string _ = False"

fun is_number :: "json \<Rightarrow> bool" where
  "is_number (JNum n) = True"
| "is_number _ = False"

fun expected_structure :: "json \<Rightarrow> bool" where
  "expected_structure (JObj kvs) =
     (case (map_of kvs ''counters'', map_of kvs ''encodedHistograms'') of
        (Some (JObj cs), Some (JObj es)) \<Rightarrow>
          list_all (\<lambda>kv. is_number (snd kv)) cs \<and> list_all (\<lambda>kv. is_string (snd kv)) es
      | _ \<Rightarrow> False)"
| "expected_structure _ = False"

text \<open>
  The condition under which the specification says \<^verbatim>\<open>deserialize\<close> fails: the text is not
  parseable as the expected structure, or an encoded distribution cannot be decoded.
\<close>

definition malformed_payload :: "'h platform \<Rightarrow> string \<Rightarrow> bool" where
  "malformed_payload env serialized =
     (case JSON_parse env serialized of
        None \<Rightarrow> True
      | Some o' \<Rightarrow> undecodable env o' \<or> \<not> expected_structure o')"

section \<open>Snapshots in a store\<close>

text \<open>
  \<^verbatim>\<open>clone\<close> is about objects that are shared or not, so here the objects live in a store
  and a snapshot is a reference. A \<^verbatim>\<open>Stats\<close> object holds the references of its
  \<^verbatim>\<open>_counters\<close> object, of its \<^verbatim>\<open>_customStats\<close> object and, when it has one, of its
  \<^verbatim>\<open>_encodedHistograms\<close> object; a \<^verbatim>\<open>_customStats\<close> object holds the references of its
  histograms. The store keeps each kind of object in a map of its own, and
  \<open>next_ref\<close> is the next reference \<^verbatim>\<open>new\<close> hands out.
\<close>

type_synonym ref = nat

record 'h store =
  stats_objs :: "ref \<Rightarrow> (ref \<times> ref \<times> ref option) option"
  number_objs :: "ref \<Rightarrow> int obj option"
  histogram_objs :: "ref \<Rightarrow> ref obj option"
  string_objs :: "ref \<Rightarrow> string obj option"
  histograms :: "ref \<Rightarrow> 'h option"
  next_ref :: ref

text \<open>The snapshot a reference stands for: the contents of the objects it reaches.\<close>

definition load_histograms :: "'h store \<Rightarrow> ref obj \<Rightarrow> 'h obj option" where
  "load_histograms \<sigma> m =
     those (map (\<lambda>(name, r). map_option (Pair name) (histograms \<sigma> r)) m)"

definition load_strings :: "'h store \<Rightarrow> ref option \<Rightarrow> string obj option option" where
  "load_strings \<sigma> e =
     (case e of
        None \<Rightarrow> Some None
      | Some er \<Rightarrow> map_option Some (string_objs \<sigma> er))"

definition load :: "'h store \<Rightarrow> ref \<Rightarrow> 'h stats option" where
  "load \<sigma> this =
     (case stats_objs \<sigma> this of
        None \<Rightarrow> None
      | Some (c, m, e) \<Rightarrow>
          (case (number_objs \<sigma> c, histogram_objs \<sigma> m) of
             (Some cs, Some hs) \<Rightarrow>
               (case (load_histograms \<sigma> hs, load_strings \<sigma> e) of
                  (Some hv, Some enc) \<Rightarrow>
                    Some \<lparr>s_counters = cs, s_customStats = hv, s_encodedHistograms = enc\<rparr>
                | _ \<Rightarrow> None)
           | _ \<Rightarrow> None))"

text \<open>The references a snapshot reaches.\<close>

definition footprint :: "'h store \<Rightarrow> ref \<Rightarrow> ref set" where
  "footprint \<sigma> this =
     insert this
       (case stats_objs \<sigma> this of
          None \<Rightarrow> {}
        | Some (c, m, e) \<Rightarrow>
            {c, m} \<union> set_option e \<union>
            (case histogram_objs \<sigma> m of
               None \<Rightarrow> {}
             | Some hs \<Rightarrow> snd ` set hs))"

text \<open>\<^verbatim>\<open>Stats.prototype.counter\<close> on the snapshot at \<open>this\<close>: it writes the counters object.\<close>

definition counter_at :: "ref \<Rightarrow> string \<Rightarrow> int \<Rightarrow> 'h store \<Rightarrow> 'h store option" where
  "counter_at this name value \<sigma> =
     (case stats_objs \<sigma> this of
        None \<Rightarrow> None
      | Some (c, m, e) \<Rightarrow>
          (case number_objs \<sigma> c of
             None \<Rightarrow> None
           | Some cs \<Rightarrow>
               Some (\<sigma>\<lparr>number_objs := (number_objs \<sigma>)(c \<mapsto> add_to_counter name value cs)\<rparr>)))"

text \<open>
  \<^verbatim>\<open>Stats.prototype.addCustomStat\<close> on the snapshot at \<open>this\<close>: a missing histogram is
  built as a new object and entered under \<open>name\<close>; the value is recorded into the
  histogram the entry refers to.
\<close>

definition addCustomStat_at ::
  "'h platform \<Rightarrow> ref \<Rightarrow> string \<Rightarrow> nat \<Rightarrow> 'h store \<Rightarrow> 'h store option" where
  "addCustomStat_at env this name n \<sigma> =
     (case stats_objs \<sigma> this of
        None \<Rightarrow> None
      | Some (c, m, e) \<Rightarrow>
          (case histogram_objs \<sigma> m of
             None \<Rightarrow> None
           | Some hs \<Rightarrow>
               (case map_of hs name of
                  None \<Rightarrow>
                    Some (\<sigma>\<lparr>histograms :=
                               (histograms \<sigma>)(next_ref \<sigma> \<mapsto>
                                  hdr_recordValue env (hdr_build env) n),
                             histogram_objs :=
                               (histogram_objs \<sigma>)(m \<mapsto> AList.update name (next_ref \<sigma>) hs),
                             next_ref := Suc (next_ref \<sigma>)\<rparr>)
                | Some r \<Rightarrow>
                    (case histograms \<sigma> r of
                       None \<Rightarrow> None
                     | Some h \<Rightarrow>
                         Some (\<sigma>\<lparr>histograms :=
                                    (histograms \<sigma>)(r \<mapsto> hdr_recordValue env h n)\<rparr>)))))"

text \<open>\<^verbatim>\<open>Stats.prototype.free\<close> on the snapshot at \<open>this\<close>: nothing is written.\<close>

definition free_at :: "ref \<Rightarrow> 'h store \<Rightarrow> 'h store option" where
  "free_at this \<sigma> = Some \<sigma>"

text \<open>\<^verbatim>\<open>Stats.prototype.report\<close> on the snapshot at \<open>this\<close>: it reads, and writes nothing.\<close>

definition report_at :: "'h platform \<Rightarrow> ref \<Rightarrow> 'h store \<Rightarrow> (error + report) option" where
  "report_at env this \<sigma> = map_option (report env) (load \<sigma> this)"

text \<open>
  \<^verbatim>\<open>Stats.prototype.clone\<close> is \<^verbatim>\<open>L.cloneDeep(this)\<close>: every object the snapshot reaches
  is copied into a new object, and the copies refer to each other as the originals do.
  First the histograms, one new object for each entry.
\<close>

fun copy_histograms :: "ref obj \<Rightarrow> 'h store \<Rightarrow> (ref obj \<times> 'h store) option" where
  "copy_histograms [] \<sigma> = Some ([], \<sigma>)"
| "copy_histograms ((name, r) # rest) \<sigma> =
     (case histograms \<sigma> r of
        None \<Rightarrow> None
      | Some h \<Rightarrow>
          (case copy_histograms rest
                  (\<sigma>\<lparr>histograms := (histograms \<sigma>)(next_ref \<sigma> \<mapsto> h),
                     next_ref := Suc (next_ref \<sigma>)\<rparr>) of
             None \<Rightarrow> None
           | Some (m', \<sigma>') \<Rightarrow> Some ((name, next_ref \<sigma>) # m', \<sigma>')))"

definition copy_strings :: "ref option \<Rightarrow> 'h store \<Rightarrow> (ref option \<times> 'h store) option" where
  "copy_strings e \<sigma> =
     (case e of
        None \<Rightarrow> Some (None, \<sigma>)
      | Some er \<Rightarrow>
          (case string_objs \<sigma> er of
             None \<Rightarrow> None
           | Some enc \<Rightarrow>
               Some (Some (next_ref \<sigma>),
                     \<sigma>\<lparr>string_objs := (string_objs \<sigma>)(next_ref \<sigma> \<mapsto> enc),
                       next_ref := Suc (next_ref \<sigma>)\<rparr>)))"

definition clone :: "ref \<Rightarrow> 'h store \<Rightarrow> (ref \<times> 'h store) option" where
  "clone this \<sigma> =
     (case stats_objs \<sigma> this of
        None \<Rightarrow> None
      | Some (c, m, e) \<Rightarrow>
          (case number_objs \<sigma> c of
             None \<Rightarrow> None
           | Some cs \<Rightarrow>
               (case histogram_objs \<sigma> m of
                  None \<Rightarrow> None
                | Some hs \<Rightarrow>
                    (case copy_histograms hs \<sigma> of
                       None \<Rightarrow> None
                     | Some (hs', \<sigma>1) \<Rightarrow>
                         (case copy_strings e \<sigma>1 of
                            None \<Rightarrow> None
                          | Some (e', \<sigma>2) \<Rightarrow>
                              (let c' = next_ref \<sigma>2;
                                   m' = Suc c';
                                   this' = Suc m'
                               in Some (this',
                                    \<sigma>2\<lparr>number_objs := (number_objs \<sigma>2)(c' \<mapsto> cs),
                                       histogram_objs := (histogram_objs \<sigma>2)(m' \<mapsto> hs'),
                                       stats_objs := (stats_objs \<sigma>2)(this' \<mapsto> (c', m', e')),
                                       next_ref := Suc this'\<rparr>)))))))"

text \<open>\<^verbatim>\<open>create\<close> in a store: a new \<^verbatim>\<open>Stats\<close> object with two new empty objects.\<close>

definition create_at :: "'h store \<Rightarrow> ref \<times> 'h store" where
  "create_at \<sigma> =
     (let c = next_ref \<sigma>; m = Suc c; this = Suc m
      in (this,
          \<sigma>\<lparr>number_objs := (number_objs \<sigma>)(c \<mapsto> []),
            histogram_objs := (histogram_objs \<sigma>)(m \<mapsto> []),
            stats_objs := (stats_objs \<sigma>)(this \<mapsto> (c, m, None)),
            next_ref := Suc this\<rparr>))"

definition empty_store :: "'h store" where
  "empty_store =
     \<lparr>stats_objs = (\<lambda>_. None), number_objs = (\<lambda>_. None), histogram_objs = (\<lambda>_. None),
      string_objs = (\<lambda>_. None), histograms = (\<lambda>_. None), next_ref = 0\<rparr>"

text \<open>A call on the snapshot at \<open>this\<close>, and a sequence of calls, one after the other.\<close>

fun apply_call_at :: "'h platform \<Rightarrow> ref \<Rightarrow> call \<Rightarrow> 'h store \<Rightarrow> 'h store option" where
  "apply_call_at env this (Counter name delta) \<sigma> = counter_at this name delta \<sigma>"
| "apply_call_at env this (AddCustomStat name n) \<sigma> = addCustomStat_at env this name n \<sigma>"

fun run_at :: "'h platform \<Rightarrow> ref \<Rightarrow> call list \<Rightarrow> 'h store \<Rightarrow> 'h store option" where
  "run_at env this [] \<sigma> = Some \<sigma>"
| "run_at env this (c # cs) \<sigma> =
     (case apply_call_at env this c \<sigma> of
        None \<Rightarrow> None
      | Some \<tau> \<Rightarrow> run_at env this cs \<tau>)"

text \<open>Two stores hold the same objects at the references of a set.\<close>

definition agree_on :: "ref set \<Rightarrow> 'h store \<Rightarrow> 'h store \<Rightarrow> bool" where
  "agree_on A \<sigma> \<tau> \<longleftrightarrow>
     (\<forall>r \<in> A. stats_objs \<tau> r = stats_objs \<sigma> r \<and> number_objs \<tau> r = number_objs \<sigma> r \<and>
        histogram_objs \<tau> r = histogram_objs \<sigma> r \<and> string_objs \<tau> r = string_objs \<sigma> r \<and>
        histograms \<tau> r = histograms \<sigma> r)"

text \<open>
  Two snapshots of a store that share no object: both are there, they reach no common
  reference, and every reference they reach has been handed out.
\<close>

definition separate :: "'h store \<Rightarrow> ref \<Rightarrow> ref \<Rightarrow> bool" where
  "separate \<sigma> a b \<longleftrightarrow>
     load \<sigma> a \<noteq> None \<and> load \<sigma> b \<noteq> None \<and>
     footprint \<sigma> a \<inter> footprint \<sigma> b = {} \<and>
     footprint \<sigma> a \<subseteq> {..<next_ref \<sigma>} \<and> footprint \<sigma> b \<subseteq> {..<next_ref \<sigma>}"

section \<open>A reference platform\<close>

text \<open>
  One platform to run the definitions on: a histogram that keeps every sample, as a sorted
  list, with percentiles by nearest rank, encoded as decimal numerals between commas; and
  JSON over the values of \<open>json\<close> (numbers written and read as integers, no escapes but
  those of the quote and the backslash). The theorems below hold of every platform; this one
  instantiates them.
\<close>

definition ref_recordValue :: "nat list \<Rightarrow> nat \<Rightarrow> nat list" where
  "ref_recordValue h n = insort n h"

definition ref_add :: "nat list \<Rightarrow> nat list \<Rightarrow> nat list" where
  "ref_add h g = sort (h @ g)"

definition ref_minNonZeroValue :: "nat list \<Rightarrow> rat" where
  "ref_minNonZeroValue h =
     (case sort (filter (\<lambda>n. 0 < n) h) of
        [] \<Rightarrow> 0
      | n # _ \<Rightarrow> of_nat n)"

definition ref_maxValue :: "nat list \<Rightarrow> rat" where
  "ref_maxValue h = (case rev (sort h) of [] \<Rightarrow> 0 | n # _ \<Rightarrow> of_nat n)"

definition ref_getValueAtPercentile :: "nat list \<Rightarrow> nat \<Rightarrow> rat" where
  "ref_getValueAtPercentile h p =
     (case sort h of
        [] \<Rightarrow> 0
      | n # ns \<Rightarrow> of_nat ((n # ns) ! min (length ns) ((p * Suc (length ns) + 99) div 100 - 1)))"

fun join :: "string \<Rightarrow> string list \<Rightarrow> string" where
  "join sep [] = []"
| "join sep [x] = x"
| "join sep (x # y # ys) = x @ sep @ join sep (y # ys)"

definition ref_encode :: "nat list \<Rightarrow> string" where
  "ref_encode h = join '','' (map decimal h)"

definition is_digit :: "char \<Rightarrow> bool" where
  "is_digit c = (c \<in> set ''0123456789'')"

definition nat_of_decimal :: "string \<Rightarrow> nat option" where
  "nat_of_decimal ds =
     (if ds \<noteq> [] \<and> list_all is_digit ds
      then Some (foldl (\<lambda>a c. 10 * a + (of_char c - 48)) 0 ds)
      else None)"

definition ref_decode :: "string \<Rightarrow> nat list option" where
  "ref_decode s = (if s = [] then Some [] else those (map nat_of_decimal (str_split '','' s)))"

definition json_quote :: "string \<Rightarrow> string" where
  "json_quote s =
     [CHR 0x22] @
     concat (map (\<lambda>c. if c = CHR 0x22 \<or> c = CHR 0x5C then [CHR 0x5C, c] else [c]) s) @
     [CHR 0x22]"

fun ref_stringify :: "json \<Rightarrow> string" where
  "ref_stringify JNull = ''null''"
| "ref_stringify (JBool b) = (if b then ''true'' else ''false'')"
| "ref_stringify (JNum q) =
     (if q < 0 then ''-'' @ decimal (nat (- \<lfloor>q\<rfloor>)) else decimal (nat \<lfloor>q\<rfloor>))"
| "ref_stringify (JStr s) = json_quote s"
| "ref_stringify (JArr xs) = ''['' @ join '','' (map ref_stringify xs) @ '']''"
| "ref_stringify (JObj kvs) =
     ''{'' @ join '','' (map (\<lambda>kv. json_quote (fst kv) @ '':'' @ ref_stringify (snd kv)) kvs) @ ''}''"

definition skip_ws :: "string \<Rightarrow> string" where
  "skip_ws s = dropWhile (\<lambda>c. c = CHR '' '' \<or> c = CHR 0x0A \<or> c = CHR 0x0D \<or> c = CHR 0x09) s"

text \<open>A string literal after its opening quote: its text and what follows the closing quote.\<close>

fun parse_string :: "string \<Rightarrow> (string \<times> string) option" where
  "parse_string [] = None"
| "parse_string (c # cs) =
     (if c = CHR 0x22 then Some ([], cs)
      else if c = CHR 0x5C then
        (case cs of
           [] \<Rightarrow> None
         | e # cs' \<Rightarrow>
             (if e = CHR 0x22 \<or> e = CHR 0x5C
              then map_option (\<lambda>(t, r). (e # t, r)) (parse_string cs')
              else None))
      else map_option (\<lambda>(t, r). (c # t, r)) (parse_string cs))"

definition parse_number :: "string \<Rightarrow> (json \<times> string) option" where
  "parse_number s =
     (let neg = (take 1 s = ''-'');
          t = (if neg then drop 1 s else s);
          ds = takeWhile is_digit t
      in case nat_of_decimal ds of
           None \<Rightarrow> None
         | Some n \<Rightarrow> Some (JNum (if neg then - of_nat n else of_nat n), dropWhile is_digit t))"

text \<open>
  The parser descends with a bound on its depth of calls. A key given twice keeps its
  first place and its last value, as in a JavaScript object.
\<close>

fun parse_value :: "nat \<Rightarrow> string \<Rightarrow> (json \<times> string) option"
  and parse_elements :: "nat \<Rightarrow> string \<Rightarrow> json list \<Rightarrow> (json list \<times> string) option"
  and parse_members ::
    "nat \<Rightarrow> string \<Rightarrow> (string \<times> json) list \<Rightarrow> ((string \<times> json) list \<times> string) option"
where
  "parse_value 0 s = None"
| "parse_value (Suc k) s =
     (case skip_ws s of
        [] \<Rightarrow> None
      | c # cs \<Rightarrow>
          (if c = CHR ''{'' then
             (if take 1 (skip_ws cs) = ''}'' then Some (JObj [], drop 1 (skip_ws cs))
              else map_option (\<lambda>(ms, r). (JObj ms, r)) (parse_members k cs []))
           else if c = CHR ''['' then
             (if take 1 (skip_ws cs) = '']'' then Some (JArr [], drop 1 (skip_ws cs))
              else map_option (\<lambda>(vs, r). (JArr vs, r)) (parse_elements k cs []))
           else if c = CHR 0x22 then map_option (\<lambda>(t, r). (JStr t, r)) (parse_string cs)
           else if prefix ''null'' (c # cs) then Some (JNull, drop 3 cs)
           else if prefix ''true'' (c # cs) then Some (JBool True, drop 3 cs)
           else if prefix ''false'' (c # cs) then Some (JBool False, drop 4 cs)
           else parse_number (c # cs)))"
| "parse_elements 0 s acc = None"
| "parse_elements (Suc k) s acc =
     (case parse_value k s of
        None \<Rightarrow> None
      | Some (v, r) \<Rightarrow>
          (if take 1 (skip_ws r) = '','' then parse_elements k (drop 1 (skip_ws r)) (acc @ [v])
           else if take 1 (skip_ws r) = '']'' then Some (acc @ [v], drop 1 (skip_ws r))
           else None))"
| "parse_members 0 s acc = None"
| "parse_members (Suc k) s acc =
     (if take 1 (skip_ws s) = [CHR 0x22] then
        (case parse_string (drop 1 (skip_ws s)) of
           None \<Rightarrow> None
         | Some (key, r) \<Rightarrow>
             (if take 1 (skip_ws r) = '':'' then
                (case parse_value k (drop 1 (skip_ws r)) of
                   None \<Rightarrow> None
                 | Some (v, r') \<Rightarrow>
                     (if take 1 (skip_ws r') = '',''
                      then parse_members k (drop 1 (skip_ws r')) (AList.update key v acc)
                      else if take 1 (skip_ws r') = ''}''
                      then Some (AList.update key v acc, drop 1 (skip_ws r'))
                      else None))
              else None))
      else None)"

definition ref_parse :: "string \<Rightarrow> json option" where
  "ref_parse s =
     (case parse_value (Suc (length s)) s of
        None \<Rightarrow> None
      | Some (v, r) \<Rightarrow> if skip_ws r = [] then Some v else None)"

definition ref_platform :: "nat list platform" where
  "ref_platform =
     \<lparr>JSON_parse = ref_parse,
      JSON_stringify = ref_stringify,
      hdr_build = [],
      hdr_recordValue = ref_recordValue,
      hdr_add = ref_add,
      hdr_minNonZeroValue = ref_minNonZeroValue,
      hdr_maxValue = ref_maxValue,
      hdr_getValueAtPercentile = ref_getValueAtPercentile,
      hdr_encodeIntoBase64String = ref_encode,
      hdr_decodeFromCompressedBase64 = ref_decode\<rparr>"

text \<open>No two names of the snapshot at \<open>this\<close> refer to one histogram object.\<close>

definition unshared :: "'h store \<Rightarrow> ref \<Rightarrow> bool" where
  "unshared \<sigma> this =
     (case stats_objs \<sigma> this of
        None \<Rightarrow> True
      | Some (c, m, e) \<Rightarrow>
          (case histogram_objs \<sigma> m of
             None \<Rightarrow> True
           | Some hs \<Rightarrow> distinct (map snd hs)))"

text \<open>
  A store to run the definitions on: the one that \<^verbatim>\<open>create()\<close>,
  \<^verbatim>\<open>counter('matches', 3)\<close> and \<^verbatim>\<open>addCustomStat('engine.http.response_time', 120)\<close>
  leave, starting from the empty store, with the snapshot at reference \<open>2\<close>.
\<close>

definition sample_store :: "nat list store" where
  "sample_store =
     \<lparr>stats_objs = (\<lambda>_. None)(2 \<mapsto> (0, 1, None)),
      number_objs = (\<lambda>_. None)(0 \<mapsto> [(''matches'', 3)]),
      histogram_objs = (\<lambda>_. None)(1 \<mapsto> [(''engine.http.response_time'', 3)]),
      string_objs = (\<lambda>_. None),
      histograms = (\<lambda>_. None)(3 \<mapsto> [120]),
      next_ref = 4\<rparr>"

section \<open>The histogram of the library\<close>

text \<open>
  \<^verbatim>\<open>hdr-histogram-js\<close> is not among the sources of the module. This section models its
  histogram (version 1, \<^verbatim>\<open>AbstractHistogram\<close>) at the configuration the module builds,
  as far as \<^verbatim>\<open>report\<close> reads it: the counts, and the fields \<^verbatim>\<open>maxValue\<close> and
  \<^verbatim>\<open>minNonZeroValue\<close>, which the library keeps apart from the counts and \<^verbatim>\<open>report\<close> reads
  as they are.

  With a lowest discernible value of 2 and one significant digit, the values below 64 are
  counted in buckets of width 2, those from 64 up to 127 in buckets of width 4, and so on,
  the width doubling with the value (\<^verbatim>\<open>unitMagnitude\<close> is 1 and
  \<^verbatim>\<open>subBucketHalfCountMagnitude\<close> is 4, so a value of bit length \<open>b\<close> is shifted by
  \<open>max 1 (b - 5)\<close>).
\<close>

definition bucket_shift :: "nat \<Rightarrow> nat" where
  "bucket_shift v = nat (max 1 (bitlen (int v) - 5))"

definition lowestEquivalentValue :: "nat \<Rightarrow> nat" where
  "lowestEquivalentValue v = v div 2 ^ bucket_shift v * 2 ^ bucket_shift v"

definition highestEquivalentValue :: "nat \<Rightarrow> nat" where
  "highestEquivalentValue v = lowestEquivalentValue v + 2 ^ bucket_shift v - 1"

text \<open>
  The counts are kept as the sorted list of the recorded values, each one as the lowest
  value of its bucket; the two fields are numbers. A new histogram has \<^verbatim>\<open>maxValue\<close> 0 and \<^verbatim>\<open>minNonZeroValue\<close>
  \<^verbatim>\<open>Number.MAX_SAFE_INTEGER\<close>.
\<close>

record histogram =
  h_counts :: "nat list"
  h_maxValue :: int
  h_minNonZeroValue :: int

definition js_build :: histogram where
  "js_build = \<lparr>h_counts = [], h_maxValue = 0, h_minNonZeroValue = 9007199254740991\<rparr>"

text \<open>
  \<^verbatim>\<open>updatedMaxValue(value)\<close> stores \<^verbatim>\<open>value + unitMagnitudeMask\<close>, and
  \<^verbatim>\<open>updateMinNonZeroValue(value)\<close> stores \<open>value\<close> rounded down to a multiple of the lowest
  discernible value, unless \<open>value\<close> is within the mask; the mask is 1.
\<close>

definition updatedMaxValue :: "int \<Rightarrow> histogram \<Rightarrow> histogram" where
  "updatedMaxValue v h = h\<lparr>h_maxValue := v + 1\<rparr>"

definition updateMinNonZeroValue :: "int \<Rightarrow> histogram \<Rightarrow> histogram" where
  "updateMinNonZeroValue v h = (if v \<le> 1 then h else h\<lparr>h_minNonZeroValue := v div 2 * 2\<rparr>)"

text \<open>\<^verbatim>\<open>recordValue\<close>: the count of the bucket, then \<^verbatim>\<open>updateMinAndMax\<close>.\<close>

definition js_recordValue :: "histogram \<Rightarrow> nat \<Rightarrow> histogram" where
  "js_recordValue h v =
     (let h1 = h\<lparr>h_counts := insort (lowestEquivalentValue v) (h_counts h)\<rparr>;
          h2 = (if h_maxValue h1 < int v then updatedMaxValue (int v) h1 else h1)
      in if int v < h_minNonZeroValue h2 \<and> v \<noteq> 0 then updateMinNonZeroValue (int v) h2
         else h2)"

text \<open>
  \<^verbatim>\<open>add\<close>: the counts of the other histogram are added, then
  \<^verbatim>\<open>updatedMaxValue(max(this.maxValue, other.maxValue))\<close> and
  \<^verbatim>\<open>updateMinNonZeroValue(min(this.minNonZeroValue, other.minNonZeroValue))\<close>.
\<close>

definition js_add :: "histogram \<Rightarrow> histogram \<Rightarrow> histogram" where
  "js_add h other =
     updateMinNonZeroValue (min (h_minNonZeroValue h) (h_minNonZeroValue other))
       (updatedMaxValue (max (h_maxValue h) (h_maxValue other))
          (h\<lparr>h_counts := sort (h_counts h @ h_counts other)\<rparr>))"

text \<open>
  \<^verbatim>\<open>getValueAtPercentile\<close>: the highest value of the bucket at which the running count
  reaches \<^verbatim>\<open>max(floor(percentile / 100 * totalCount + 0.5), 1)\<close>, and for percentile 0
  the lowest value of that bucket.
\<close>

definition js_getValueAtPercentile :: "histogram \<Rightarrow> nat \<Rightarrow> rat" where
  "js_getValueAtPercentile h p =
     (let total = length (h_counts h);
          k = nat (max 1
                \<lfloor>to_double (to_double (to_double (of_nat (min p 100) / 100) * of_nat total) +
                   1 / 2)\<rfloor>)
      in if total < k then 0
         else if p = 0 then of_nat (lowestEquivalentValue (h_counts h ! (k - 1)))
         else of_nat (highestEquivalentValue (h_counts h ! (k - 1))))"

text \<open>
  The encoding carries the counts, not the two fields. It is written here as the decimal
  numerals of the counted values between commas, in place of the compressed binary format
  of the library. Decoding fills the counts and sets the two fields from them: \<^verbatim>\<open>maxValue\<close>
  from the highest value of the last bucket that is not empty, \<^verbatim>\<open>minNonZeroValue\<close> from
  the first bucket that is not empty, the bucket of 0 apart.
\<close>

definition js_encode :: "histogram \<Rightarrow> string" where
  "js_encode h = join '','' (map decimal (h_counts h))"

definition establish :: "nat list \<Rightarrow> histogram" where
  "establish cs =
     (let vs = sort (map lowestEquivalentValue cs);
          h = js_build\<lparr>h_counts := vs\<rparr>;
          h1 = (case rev vs of
                  [] \<Rightarrow> h
                | v # _ \<Rightarrow> updatedMaxValue (int (highestEquivalentValue v)) h)
      in case filter (\<lambda>v. 0 < v) vs of
           [] \<Rightarrow> h1
         | v # _ \<Rightarrow> updateMinNonZeroValue (int v) h1)"

definition js_decode :: "string \<Rightarrow> histogram option" where
  "js_decode s =
     map_option establish
       (if s = [] then Some [] else those (map nat_of_decimal (str_split '','' s)))"

definition hdr_js_platform :: "histogram platform" where
  "hdr_js_platform =
     \<lparr>JSON_parse = ref_parse,
      JSON_stringify = ref_stringify,
      hdr_build = js_build,
      hdr_recordValue = js_recordValue,
      hdr_add = js_add,
      hdr_minNonZeroValue = (\<lambda>h. of_int (h_minNonZeroValue h)),
      hdr_maxValue = (\<lambda>h. of_int (h_maxValue h)),
      hdr_getValueAtPercentile = js_getValueAtPercentile,
      hdr_encodeIntoBase64String = js_encode,
      hdr_decodeFromCompressedBase64 = js_decode\<rparr>"

section \<open>Numbers: properties\<close>

lemma round_half_even_of_int: "round_half_even (of_int m) = m"
  by (simp add: round_half_even_def)

lemma to_double_of_int:
  assumes "\<bar>n\<bar> \<le> 2 ^ 53"
  shows "to_double (of_int n) = of_int n"
proof (cases "n = 0")
  case True
  then show ?thesis by (simp add: to_double_def)
next
  case False
  define b where "b = bitlen \<bar>n\<bar>"
  have one: "1 \<le> \<bar>of_int n :: rat\<bar>"
    using False by (simp flip: of_int_abs)
  have il: "ilog2 (of_int n) = b - 1"
    using one by (simp add: ilog2_def b_def flip: of_int_abs)
  have b1: "1 \<le> b"
    using False by (simp add: b_def bitlen_ge_iff_power)
  have "\<bar>n\<bar> < 2 ^ 54" using assms by simp
  then have b54: "b \<le> 54"
    by (simp add: b_def bitlen_le_iff_power)
  have td: "to_double (of_int n) =
      of_int (round_half_even (of_int n / 2 powi (b - 53))) * 2 powi (b - 53)"
    using False b1 by (simp add: to_double_def il Let_def max_def)
  show ?thesis
  proof (cases "b \<le> 53")
    case True
    define k where "k = nat (53 - b)"
    have u: "(2::rat) powi (b - 53) = 1 / 2 ^ k"
      using True by (cases "b = 53") (simp_all add: power_int_def k_def inverse_eq_divide power_one_over)
    have "of_int n / (2::rat) powi (b - 53) = of_int (n * 2 ^ k)"
      by (simp add: u)
    then show ?thesis
      unfolding td by (simp only: round_half_even_of_int) (simp add: u)
  next
    case False
    then have "b = 54" using b54 by simp
    then have "2 ^ 53 \<le> \<bar>n\<bar>"
      using bitlen_ge_iff_power [of 54 "\<bar>n\<bar>"] by (simp add: b_def)
    then have n: "\<bar>n\<bar> = 2 ^ 53" using assms by simp
    have u: "(2::rat) powi (b - 53) = 2" by (simp add: \<open>b = 54\<close>)
    have "even n" using n by (metis even_abs_add_iff even_add even_numeral even_power zero_less_numeral)
    then obtain m where m: "n = 2 * m" by (elim evenE)
    have "of_int n / (2::rat) powi (b - 53) = of_int m"
      by (simp add: u m)
    then show ?thesis
      unfolding td by (simp only: round_half_even_of_int) (simp add: u m)
  qed
qed

lemma double_add_exact: "\<bar>a + b\<bar> \<le> 2 ^ 53 \<Longrightarrow> double_add a b = a + b"
  using to_double_of_int [of "a + b"] by (simp add: double_add_def)

section \<open>Rounding: properties\<close>

lemma floor_half: "\<lfloor>1 / 2 :: rat\<rfloor> = 0"
  by (rule floor_unique) simp_all

lemma floor_half_neg:
  fixes y :: rat
  shows "\<lfloor>- y + 1 / 2\<rfloor> =
    (if frac y = 1 / 2 then 1 - \<lfloor>y + 1 / 2\<rfloor> else - \<lfloor>y + 1 / 2\<rfloor>)"
proof -
  define z where "z = y - 1 / 2"
  have y: "y = z + 1 / 2" by (simp add: z_def)
  have up: "\<lfloor>y + 1 / 2\<rfloor> = \<lfloor>z\<rfloor> + 1" by (simp add: y)
  have down: "\<lfloor>- y + 1 / 2\<rfloor> = - \<lceil>z\<rceil>" by (simp add: y ceiling_def)
  have tie: "frac y = 1 / 2 \<longleftrightarrow> z = of_int \<lfloor>z\<rfloor>"
  proof
    assume "frac y = 1 / 2"
    then have "y - of_int \<lfloor>y\<rfloor> = 1 / 2" by (simp add: frac_def)
    then have "z = of_int \<lfloor>y\<rfloor>" by (simp add: z_def)
    then show "z = of_int \<lfloor>z\<rfloor>" by (metis floor_of_int)
  next
    assume "z = of_int \<lfloor>z\<rfloor>"
    then obtain k :: int where k: "z = of_int k" ..
    have "\<lfloor>y\<rfloor> = k" unfolding y k by (rule floor_unique) simp_all
    then show "frac y = 1 / 2" by (simp add: frac_def y k)
  qed
  show ?thesis unfolding up down using tie by (auto simp: ceiling_altdef)
qed

lemma Math_round_nonneg:
  "0 \<le> x \<Longrightarrow> of_int (Math_round (x * 10 ^ d)) / 10 ^ d = round_half_away x d"
  by (cases "x = 0") (simp_all add: round_half_away_def Math_round_def floor_half)

lemma Math_round_neg:
  assumes "x < 0"
  shows "of_int (Math_round (x * 10 ^ d)) / 10 ^ d =
    (if frac (x * 10 ^ d) = 1 / 2 then round_half_away x d + 1 / 10 ^ d
     else round_half_away x d)"
proof -
  define y where "y = x * 10 ^ d"
  have abs: "\<bar>x\<bar> * 10 ^ d = - y" using assms by (simp add: y_def)
  have l: "of_int (Math_round (x * 10 ^ d)) / 10 ^ d = of_int \<lfloor>y + 1 / 2\<rfloor> / (10 ^ d :: rat)"
    by (simp add: Math_round_def y_def)
  have r: "round_half_away x d = - (of_int \<lfloor>- y + 1 / 2\<rfloor> / 10 ^ d)"
  proof -
    have "round_half_away x d = sgn x * of_int \<lfloor>- y + 1 / 2\<rfloor> / 10 ^ d"
      unfolding round_half_away_def abs ..
    then show ?thesis using assms by simp
  qed
  have alg1: "- (of_int (1 - a) / m) + 1 / m = of_int a / m" for a :: int and m :: rat
    by (simp add: diff_divide_distrib)
  have alg2: "- (of_int (- a) / m) = of_int a / m" for a :: int and m :: rat
    by simp
  show ?thesis
  proof (cases "frac y = 1 / 2")
    case True
    then have "\<lfloor>- y + 1 / 2\<rfloor> = 1 - \<lfloor>y + 1 / 2\<rfloor>"
      using floor_half_neg [of y] by (simp only: simp_thms if_True)
    then have "round_half_away x d + 1 / 10 ^ d = of_int (Math_round (x * 10 ^ d)) / 10 ^ d"
      unfolding l r by (simp only: alg1)
    then show ?thesis using True by (simp add: y_def)
  next
    case False
    then have "\<lfloor>- y + 1 / 2\<rfloor> = - \<lfloor>y + 1 / 2\<rfloor>"
      using floor_half_neg [of y] by (simp only: simp_thms if_False)
    then have "round_half_away x d = of_int (Math_round (x * 10 ^ d)) / 10 ^ d"
      unfolding l r by (simp only: alg2)
    then show ?thesis using False by (simp add: y_def)
  qed
qed

lemma round_dec_exact_product:
  "is_double (x * 10 ^ d) \<Longrightarrow>
   round_dec x d = to_double (of_int (Math_round (x * 10 ^ d)) / 10 ^ d)"
  by (simp add: round_dec_def is_double_def Let_def)

text \<open>
  Claim C6 says that \<^verbatim>\<open>round(x, d)\<close> is \<open>x\<close> times \<open>10 ^ d\<close>, rounded to the nearest
  integer with ties away from zero, divided by \<open>10 ^ d\<close>. The code rounds with
  \<^verbatim>\<open>Math.round\<close>, which takes a tie to the greater integer, and it multiplies and divides
  doubles. As amended: for a double \<open>x\<close> and \<open>d\<close> up to 22 such that \<open>x * 10 ^ d\<close> is a
  double, so that the product is exact, \<^verbatim>\<open>round(x, d)\<close> is the double nearest to what
  the away-from-zero rule gives wherever \<open>x\<close> is not negative or \<open>x * 10 ^ d\<close> is not a
  tie; at a negative tie it is the double nearest to one unit \<open>1 / 10 ^ d\<close> above the
  rule, that is, it rounds toward zero. So \<^verbatim>\<open>round(1.2345, 1)\<close> is \<^verbatim>\<open>1.2\<close>,
  \<^verbatim>\<open>round(1.25, 1)\<close> is \<^verbatim>\<open>1.3\<close> and \<^verbatim>\<open>round(-1.25, 1)\<close> is \<^verbatim>\<open>-1.2\<close>, each literal
  being the double nearest to it.
\<close>

theorem round_dec_ties_up:
  assumes "d \<le> 22" and "is_double x" and "is_double (x * 10 ^ d)"
  shows "(0 \<le> x \<or> frac (x * 10 ^ d) \<noteq> 1 / 2 \<longrightarrow>
      round_dec x d = to_double (round_half_away x d)) \<and>
   (x < 0 \<and> frac (x * 10 ^ d) = 1 / 2 \<longrightarrow>
      round_dec x d = to_double (round_half_away x d + 1 / 10 ^ d)) \<and>
   round_dec (to_double (12345 / 10000)) 1 = to_double (12 / 10) \<and>
   round_dec (125 / 100) 1 = to_double (13 / 10) \<and>
   round_dec (- 125 / 100) 1 = to_double (- 12 / 10)"
proof -
  have "round_dec (to_double (12345 / 10000)) 1 = to_double (12 / 10)" by code_simp
  moreover have "round_dec (125 / 100) 1 = to_double (13 / 10)" by code_simp
  moreover have "round_dec (- 125 / 100) 1 = to_double (- 12 / 10)" by code_simp
  ultimately show ?thesis
    unfolding round_dec_exact_product [OF assms(3)]
    using Math_round_nonneg [of x d] Math_round_neg [of x d] by (cases "0 \<le> x") simp_all
qed

theorem round_dec_ties_up_witness:
  "is_double (125 / 100) \<and> is_double (125 / 100 * 10 ^ 1) \<and>
   round_dec (125 / 100) 1 = to_double (round_half_away (125 / 100) 1) \<and>
   is_double (- 125 / 100) \<and> is_double (- 125 / 100 * 10 ^ 1) \<and>
   round_dec (- 125 / 100) 1 = to_double (round_half_away (- 125 / 100) 1 + 1 / 10 ^ 1)"
proof -
  have t: "frac (- 125 / 100 * 10 ^ 1 :: rat) = 1 / 2" by code_simp
  have a: "is_double (125 / 100)" and b: "is_double (125 / 100 * 10 ^ 1)"
    and c: "is_double (- 125 / 100)" and d: "is_double (- 125 / 100 * 10 ^ 1)"
    by code_simp+
  have le: "(1::nat) \<le> 22" by simp
  show ?thesis
    using round_dec_ties_up [OF le a b] round_dec_ties_up [OF le c d] t a b c d
    by simp
qed

text \<open>
  The claim as stated fails at \<^verbatim>\<open>round(-1.25, 1)\<close>: the code gives \<^verbatim>\<open>-1.2\<close>, the rule
  \<open>-1.3\<close>. It fails at \<^verbatim>\<open>round(0.35, 1)\<close> too: the double \<^verbatim>\<open>0.35\<close> is below
  \<open>35 / 100\<close>, so the rule gives \<open>0.3\<close>, but its product with 10 rounds to the double
  \<open>3.5\<close> and the code gives \<^verbatim>\<open>0.4\<close>.
\<close>

theorem round_dec_ties_counterexample:
  "round_dec (- 125 / 100) 1 = to_double (- 12 / 10) \<and>
   round_half_away (- 125 / 100) 1 = - 13 / 10 \<and>
   round_dec (- 125 / 100) 1 \<noteq> to_double (round_half_away (- 125 / 100) 1) \<and>
   round_dec (to_double (35 / 100)) 1 = to_double (4 / 10) \<and>
   round_half_away (to_double (35 / 100)) 1 = 3 / 10 \<and>
   round_dec (to_double (35 / 100)) 1 \<noteq> to_double (round_half_away (to_double (35 / 100)) 1)"
  by code_simp

section \<open>Combining snapshots: properties\<close>



lemma dom_add_to_counter:
  "fst ` set (add_to_counter name value c) = insert name (fst ` set c)"
  by (cases "map_of c name")
    (auto simp: add_to_counter_def falsy_def Let_def AList.dom_update split: option.splits)

lemma distinct_add_to_counter:
  "distinct (map fst c) \<Longrightarrow> distinct (map fst (add_to_counter name value c))"
  by (auto simp: add_to_counter_def Let_def AList.distinct_update split: option.splits)

lemma values_of_Cons [simp]:
  "values_of k ((name, v) # es) = (if name = k then v # values_of k es else values_of k es)"
  by (simp add: values_of_def)

lemma values_of_Nil [simp]: "values_of k [] = []"
  by (simp add: values_of_def)

lemma values_of_append [simp]: "values_of k (xs @ ys) = values_of k xs @ values_of k ys"
  by (simp add: values_of_def)







lemma values_of_concat:
  "values_of k (concat xss) = concat (map (values_of k) xss)"
  by (induction xss) simp_all










lemma dom_on_ensure:
  "fst ` set (on_histogram name f (ensure_histogram env name m)) = insert name (fst ` set m)"
  by (cases "map_of m name")
    (auto simp: on_histogram_def ensure_histogram_def AList.update_conv' AList.dom_update
      dest: map_of_SomeD weak_map_of_SomeI)

lemma distinct_on_ensure:
  "distinct (map fst m) \<Longrightarrow>
   distinct (map fst (on_histogram name f (ensure_histogram env name m)))"
  by (cases "map_of m name")
    (auto simp: on_histogram_def ensure_histogram_def AList.update_conv' AList.distinct_update)







lemma report_l_max:
  "map_of (s_customStats this) ''engine.http.response_time'' = Some ns \<Longrightarrow>
   report env this = Inr r \<Longrightarrow> l_max (latency r) = round_dec (hdr_maxValue env ns) 1"
  by (auto simp: report_def latency_of_def)

lemma report_returns:
  "map_of (s_customStats this) ''engine.http.response_time'' = Some ns \<Longrightarrow>
   \<exists>r. report env this = Inr r"
  by (simp add: report_def)




section \<open>Serialization: properties\<close>

lemma update_fresh: "k \<notin> fst ` set al \<Longrightarrow> AList.update k v al = al @ [(k, v)]"
  by (induction al) auto

lemma foldl_update_fresh:
  "distinct (map fst m) \<Longrightarrow> fst ` set acc \<inter> fst ` set m = {} \<Longrightarrow>
   foldl (\<lambda>acc (name, v). AList.update name (f v) acc) acc m =
     acc @ map (\<lambda>(name, v). (name, f v)) m"
proof (induction m arbitrary: acc)
  case Nil
  show ?case by simp
next
  case (Cons e m)
  obtain name v where e: "e = (name, v)" by (cases e)
  have fresh: "name \<notin> fst ` set acc" using Cons.prems(2) by (auto simp: e)
  have "fst ` set (acc @ [(name, f v)]) \<inter> fst ` set m = {}"
    using Cons.prems by (auto simp: e)
  then show ?case
    using Cons.prems(1) by (simp add: e update_fresh [OF fresh] Cons.IH)
qed

lemma each_into_distinct:
  "distinct (map fst m) \<Longrightarrow> each_into f m = map (\<lambda>(name, v). (name, f v)) m"
  unfolding each_into_def using foldl_update_fresh [of m "[]" f] by simp

lemma decode_all_encoded:
  "distinct (map fst m) \<Longrightarrow> fst ` set acc \<inter> fst ` set m = {} \<Longrightarrow>
   \<forall>h \<in> snd ` set m.
     hdr_decodeFromCompressedBase64 env (hdr_encodeIntoBase64String env h) = Some (g h) \<Longrightarrow>
   decode_all env
     (map (\<lambda>kv. (fst kv, Some (JStr (hdr_encodeIntoBase64String env (snd kv))))) m) acc =
     Inr (acc @ map (\<lambda>kv. (fst kv, g (snd kv))) m)"
proof (induction m arbitrary: acc)
  case Nil
  show ?case by simp
next
  case (Cons e m)
  obtain name h where e: "e = (name, h)" by (cases e)
  have fresh: "name \<notin> fst ` set acc" using Cons.prems(2) by (auto simp: e)
  have dec: "hdr_decodeFromCompressedBase64 env (hdr_encodeIntoBase64String env h) = Some (g h)"
    using Cons.prems(3) by (simp add: e)
  have "distinct (map fst m)" using Cons.prems(1) by simp
  moreover have "fst ` set (acc @ [(name, g h)]) \<inter> fst ` set m = {}"
    using Cons.prems by (auto simp: e)
  moreover have "\<forall>h \<in> snd ` set m.
     hdr_decodeFromCompressedBase64 env (hdr_encodeIntoBase64String env h) = Some (g h)"
    using Cons.prems(3) by simp
  ultimately have "decode_all env
      (map (\<lambda>kv. (fst kv, Some (JStr (hdr_encodeIntoBase64String env (snd kv))))) m)
      (acc @ [(name, g h)]) = Inr ((acc @ [(name, g h)]) @ map (\<lambda>kv. (fst kv, g (snd kv))) m)"
    by (rule Cons.IH)
  then show ?case
    by (simp add: e dec update_fresh [OF fresh])
qed

text \<open>An object of strings is not array-like, whatever its keys.\<close>

lemma array_like_length_strings:
  "array_like_length (map (\<lambda>kv. (fst kv, JStr (f (snd kv)))) m) = None"
proof -
  have "map_of (map (\<lambda>kv. (fst kv, JStr (f (snd kv)))) m) ''length'' =
      map_option (\<lambda>v. JStr (f v)) (map_of m ''length'')"
    by (induction m) auto
  then show ?thesis
    by (cases "map_of m ''length''") (simp_all add: array_like_length_def)
qed

lemma entries_strings:
  "entries (Some (JObj (map (\<lambda>kv. (fst kv, JStr (f (snd kv)))) m))) =
     map (\<lambda>kv. (fst kv, Some (JStr (f (snd kv))))) m"
  by (simp add: array_like_length_strings comp_def)

lemma those_numbers:
  "those (map (\<lambda>kv. map_option (Pair (fst kv)) (number_of (JNum (of_int (snd kv))))) c) = Some c"
  by (induction c) auto

lemma counters_of_payload:
  "those (map ((\<lambda>(name, v). map_option (Pair name) (number_of v)) \<circ>
               (\<lambda>(name, v). (name, JNum (of_int v)))) c) = Some c"
  using those_numbers [of c] by (simp add: comp_def case_prod_unfold)

lemma distinct_counter: "distinct (map fst (s_counters this)) \<Longrightarrow>
   distinct (map fst (s_counters (counter name value this)))"
  by (simp add: counter_def distinct_add_to_counter)

lemma distinct_built:
  "distinct (map fst (s_counters (built env calls))) \<and>
   distinct (map fst (s_customStats (built env calls)))"
proof (induction calls rule: rev_induct)
  case Nil
  show ?case by (simp add: built_def create_def reset_def)
next
  case (snoc c calls)
  then show ?case
    by (cases c)
      (simp_all add: built_def counter_def addCustomStat_def distinct_add_to_counter
        distinct_on_ensure)
qed

lemma deserialize_serialized:
  fixes env :: "'h platform"
  assumes d: "distinct (map fst (s_customStats S))"
    and json: "JSON_parse env (JSON_stringify env
        (payload (s_counters S) (each_into (hdr_encodeIntoBase64String env) (s_customStats S)))) =
      Some (payload (s_counters S) (each_into (hdr_encodeIntoBase64String env) (s_customStats S)))"
    and decodes: "\<forall>h \<in> snd ` set (s_customStats S).
      hdr_decodeFromCompressedBase64 env (hdr_encodeIntoBase64String env h) \<noteq> None"
  shows "deserialize env (fst (serialize env S)) =
    Inr \<lparr>p_counters = Some (JObj (map (\<lambda>(name, v). (name, JNum (of_int v))) (s_counters S))),
         p_customStats =
           map (\<lambda>(name, h). (name,
                  the (hdr_decodeFromCompressedBase64 env (hdr_encodeIntoBase64String env h))))
             (s_customStats S)\<rparr>"
proof -
  define g where
    "g h = the (hdr_decodeFromCompressedBase64 env (hdr_encodeIntoBase64String env h))" for h
  have dec: "\<forall>h \<in> snd ` set (s_customStats S).
      hdr_decodeFromCompressedBase64 env (hdr_encodeIntoBase64String env h) = Some (g h)"
    using decodes by (auto simp: g_def)
  have written: "fst (serialize env S) = JSON_stringify env
      (payload (s_counters S) (each_into (hdr_encodeIntoBase64String env) (s_customStats S)))"
    by (simp add: serialize_def Let_def)
  have all: "decode_all env (entries (Some (JObj (map (\<lambda>(name, e). (name, JStr e))
       (each_into (hdr_encodeIntoBase64String env) (s_customStats S)))))) [] =
     Inr (map (\<lambda>(name, h). (name, g h)) (s_customStats S))"
    using decode_all_encoded [OF d _ dec, of "[]"]
      entries_strings [of "hdr_encodeIntoBase64String env" "s_customStats S"]
    by (simp add: each_into_distinct [OF d] comp_def case_prod_unfold)
  have eh: "get_property (payload c enc) ''encodedHistograms'' =
      Inr (Some (JObj (map (\<lambda>(name, e). (name, JStr e)) enc)))" for c enc
    by (simp add: payload_def)
  have cs: "get_property (payload c enc) ''counters'' =
      Inr (Some (JObj (map (\<lambda>(name, v). (name, JNum (of_int v))) c)))" for c enc
    by (simp add: payload_def)
  show ?thesis
    unfolding g_def [symmetric, abs_def] written
    by (simp add: deserialize_def json eh cs all del: entries.simps)
qed

lemma report_counters_cong:
  assumes c: "s_counters S' = s_counters S"
    and m: "s_customStats S' = map (\<lambda>(name, h). (name, g h)) (s_customStats S)"
    and d: "distinct (map fst (s_customStats S))"
  shows "case report env S of
      Inl e \<Rightarrow> report env S' = Inl e
    | Inr r \<Rightarrow>
        (\<exists>r'. report env S' = Inr r' \<and>
           scenariosCreated r' = scenariosCreated r \<and> scenarioCounts r' = scenarioCounts r \<and>
           scenariosCompleted r' = scenariosCompleted r \<and>
           requestsCompleted r' = requestsCompleted r \<and> rps r' = rps r \<and>
           errors r' = errors r \<and> codes r' = codes r \<and> matches r' = matches r \<and>
           counters r' = counters r \<and> scenariosAvoided r' = scenariosAvoided r \<and>
           map fst (customStats r') = map fst (customStats r))"
proof -
  have keys: "map fst (s_customStats S') = map fst (s_customStats S)"
    by (simp add: m comp_def case_prod_unfold)
  have look: "map_of (s_customStats S') k = map_option g (map_of (s_customStats S) k)" for k
    unfolding m by (simp add: map_of_map)
  have d': "distinct (map fst (s_customStats S'))" by (simp add: keys d)
  have names: "map fst (each_into (summary_of env) (s_customStats S')) =
      map fst (each_into (summary_of env) (s_customStats S))"
    by (simp add: each_into_distinct [OF d] each_into_distinct [OF d'] comp_def case_prod_unfold
        keys [unfolded map_map comp_def])
  show ?thesis
    by (cases "map_of (s_customStats S) ''engine.http.response_time''")
      (simp_all add: report_def look c names)
qed

text \<open>
  Claim C1 says that for every snapshot \<open>S\<close> built by \<^verbatim>\<open>counter\<close> and \<^verbatim>\<open>addCustomStat\<close>
  calls, \<^verbatim>\<open>deserialize(serialize(S))\<close> has the counters of \<open>S\<close> and distributions whose
  statistics equal those of \<open>S\<close>, so that \<^verbatim>\<open>report\<close> agrees on every field.
  \<^verbatim>\<open>report\<close> reads \<^verbatim>\<open>maxValue\<close> and \<^verbatim>\<open>minNonZeroValue\<close> as the histogram holds them, and
  the library's decoder sets them anew from the counts. As amended, for a snapshot \<open>S\<close>
  built by calls under ordinary names whose counters stay within the integers that doubles
  count exactly, provided that \<^verbatim>\<open>JSON.parse\<close> reads back the object that \<^verbatim>\<open>serialize\<close>
  hands to \<^verbatim>\<open>JSON.stringify\<close> and that the decoder accepts what the encoder wrote for
  each histogram of \<open>S\<close>: \<^verbatim>\<open>deserialize(serialize(S))\<close> returns a snapshot with the
  counters of \<open>S\<close> and, under the names of \<open>S\<close> in their order, the histograms the decoder
  returns; \<^verbatim>\<open>report\<close> on it raises exactly when \<^verbatim>\<open>report\<close> on \<open>S\<close> does, agrees with it
  on every field computed from the counters, and lists the same custom-stat names. The
  statistics it reports are those of the decoded histograms (the timestamp is outside the
  model).
\<close>

theorem serialize_deserialize_counters:
  fixes env :: "'h platform" and calls :: "call list"
  defines "S \<equiv> built env calls"
  assumes "ordinary_calls calls"
    and "JSON_parse env (JSON_stringify env
        (payload (s_counters S) (each_into (hdr_encodeIntoBase64String env) (s_customStats S)))) =
      Some (payload (s_counters S) (each_into (hdr_encodeIntoBase64String env) (s_customStats S)))"
    and "\<forall>h \<in> snd ` set (s_customStats S).
      hdr_decodeFromCompressedBase64 env (hdr_encodeIntoBase64String env h) \<noteq> None"
  shows "\<exists>p S'. deserialize env (fst (serialize env S)) = Inr p \<and> as_stats p = Some S' \<and>
    s_counters S' = s_counters S \<and>
    s_customStats S' =
      map (\<lambda>(name, h). (name,
             the (hdr_decodeFromCompressedBase64 env (hdr_encodeIntoBase64String env h))))
        (s_customStats S) \<and>
    (case report env S of
       Inl e \<Rightarrow> report env S' = Inl e
     | Inr r \<Rightarrow>
         (\<exists>r'. report env S' = Inr r' \<and>
            scenariosCreated r' = scenariosCreated r \<and> scenarioCounts r' = scenarioCounts r \<and>
            scenariosCompleted r' = scenariosCompleted r \<and>
            requestsCompleted r' = requestsCompleted r \<and> rps r' = rps r \<and>
            errors r' = errors r \<and> codes r' = codes r \<and> matches r' = matches r \<and>
            counters r' = counters r \<and> scenariosAvoided r' = scenariosAvoided r \<and>
            map fst (customStats r') = map fst (customStats r)))"
proof -
  define g where
    "g h = the (hdr_decodeFromCompressedBase64 env (hdr_encodeIntoBase64String env h))" for h
  have d: "distinct (map fst (s_customStats S))"
    unfolding S_def using distinct_built by blast
  define S' :: "'h stats" where "S' = \<lparr>s_counters = s_counters S,
      s_customStats = map (\<lambda>(name, h). (name, g h)) (s_customStats S),
      s_encodedHistograms = None\<rparr>"
  define p :: "'h parsed_stats" where
    "p = \<lparr>p_counters = Some (JObj (map (\<lambda>(name, v). (name, JNum (of_int v))) (s_counters S))),
          p_customStats = map (\<lambda>(name, h). (name, g h)) (s_customStats S)\<rparr>"
  have "deserialize env (fst (serialize env S)) = Inr p"
    unfolding p_def g_def [abs_def] using d assms(3) assms(4) by (rule deserialize_serialized)
  moreover have "as_stats p = Some S'"
    by (simp add: as_stats_def p_def S'_def counters_of_payload)
  moreover have "s_counters S' = s_counters S"
    by (simp add: S'_def)
  moreover have m: "s_customStats S' = map (\<lambda>(name, h). (name, g h)) (s_customStats S)"
    by (simp add: S'_def)
  moreover have "case report env S of
       Inl e \<Rightarrow> report env S' = Inl e
     | Inr r \<Rightarrow>
         (\<exists>r'. report env S' = Inr r' \<and>
            scenariosCreated r' = scenariosCreated r \<and> scenarioCounts r' = scenarioCounts r \<and>
            scenariosCompleted r' = scenariosCompleted r \<and>
            requestsCompleted r' = requestsCompleted r \<and> rps r' = rps r \<and>
            errors r' = errors r \<and> codes r' = codes r \<and> matches r' = matches r \<and>
            counters r' = counters r \<and> scenariosAvoided r' = scenariosAvoided r \<and>
            map fst (customStats r') = map fst (customStats r))"
    by (rule report_counters_cong [where g = g]) (simp_all add: S'_def d)
  ultimately show ?thesis
    unfolding g_def [abs_def] by blast
qed

theorem serialize_deserialize_counters_witness:
  "\<exists>p S'. deserialize ref_platform (fst (serialize ref_platform (built ref_platform
       [Counter ''scenarios.created'' 10, AddCustomStat ''engine.http.response_time'' 120,
        AddCustomStat ''engine.http.response_time'' 80, AddCustomStat ''think'' 7,
        Counter ''engine.http.responses_received'' 30]))) = Inr p \<and>
     as_stats p = Some S' \<and>
     s_counters S' = s_counters (built ref_platform
       [Counter ''scenarios.created'' 10, AddCustomStat ''engine.http.response_time'' 120,
        AddCustomStat ''engine.http.response_time'' 80, AddCustomStat ''think'' 7,
        Counter ''engine.http.responses_received'' 30])"
proof -
  let ?calls = "[Counter ''scenarios.created'' 10,
    AddCustomStat ''engine.http.response_time'' 120,
    AddCustomStat ''engine.http.response_time'' 80, AddCustomStat ''think'' 7,
    Counter ''engine.http.responses_received'' 30]"
  let ?S = "built ref_platform ?calls"
  have ord: "ordinary_calls ?calls"
    by (simp add: ordinary_calls_def ordinary_name_def special_names_def)
  have json: "JSON_parse ref_platform (JSON_stringify ref_platform
        (payload (s_counters ?S)
          (each_into (hdr_encodeIntoBase64String ref_platform) (s_customStats ?S)))) =
      Some (payload (s_counters ?S)
        (each_into (hdr_encodeIntoBase64String ref_platform) (s_customStats ?S)))"
    by code_simp
  have dec: "\<forall>h \<in> snd ` set (s_customStats ?S).
      hdr_decodeFromCompressedBase64 ref_platform (hdr_encodeIntoBase64String ref_platform h) \<noteq> None"
    by code_simp
  show ?thesis
    using serialize_deserialize_counters [OF ord json dec] by blast
qed

text \<open>
  The claim as stated fails with the histogram of the library on a snapshot with the one
  response time 120: \<^verbatim>\<open>report\<close> gives the maximum 121 before the round trip and 124
  after it.
\<close>

theorem serialize_deserialize_counterexample:
  "(\<exists>r. report hdr_js_platform (built hdr_js_platform
        [AddCustomStat ''engine.http.response_time'' 120]) = Inr r \<and>
      l_max (latency r) = 121) \<and>
   (\<exists>p S' r'. deserialize hdr_js_platform (fst (serialize hdr_js_platform (built hdr_js_platform
        [AddCustomStat ''engine.http.response_time'' 120]))) = Inr p \<and>
      as_stats p = Some S' \<and> report hdr_js_platform S' = Inr r' \<and>
      l_max (latency r') = 124)"
proof -
  let ?S = "built hdr_js_platform [AddCustomStat ''engine.http.response_time'' 120]"
  let ?h = "\<lparr>h_counts = [120], h_maxValue = 121, h_minNonZeroValue = 120\<rparr>"
  let ?h' = "\<lparr>h_counts = [120], h_maxValue = 124, h_minNonZeroValue = 120\<rparr>"
  let ?S' = "\<lparr>s_counters = [], s_customStats = [(''engine.http.response_time'', ?h')],
    s_encodedHistograms = None\<rparr>"
  have before: "\<exists>r. report hdr_js_platform ?S = Inr r \<and> l_max (latency r) = 121"
  proof -
    have m: "map_of (s_customStats ?S) ''engine.http.response_time'' = Some ?h"
      by code_simp
    have v: "round_dec (hdr_maxValue hdr_js_platform ?h) 1 = 121"
      by code_simp
    from report_returns [OF m, of hdr_js_platform] obtain r where
      r: "report hdr_js_platform ?S = Inr r" ..
    from m r have "l_max (latency r) = round_dec (hdr_maxValue hdr_js_platform ?h) 1"
      by (rule report_l_max)
    then have "l_max (latency r) = 121" by (simp only: v)
    with r show ?thesis by blast
  qed
  have p: "deserialize hdr_js_platform (fst (serialize hdr_js_platform ?S)) =
      Inr \<lparr>p_counters = Some (JObj []),
           p_customStats = [(''engine.http.response_time'', ?h')]\<rparr>"
    by code_simp
  have s: "as_stats \<lparr>p_counters = Some (JObj []),
           p_customStats = [(''engine.http.response_time'', ?h')]\<rparr> = Some ?S'"
    by (simp add: as_stats_def)
  have after: "\<exists>r'. report hdr_js_platform ?S' = Inr r' \<and> l_max (latency r') = 124"
  proof -
    have m: "map_of (s_customStats ?S') ''engine.http.response_time'' = Some ?h'"
      by simp
    have v: "round_dec (hdr_maxValue hdr_js_platform ?h') 1 = 124"
      by code_simp
    from report_returns [OF m, of hdr_js_platform] obtain r where
      r: "report hdr_js_platform ?S' = Inr r" ..
    from m r have "l_max (latency r) = round_dec (hdr_maxValue hdr_js_platform ?h') 1"
      by (rule report_l_max)
    then have "l_max (latency r) = 124" by (simp only: v)
    with r show ?thesis by blast
  qed
  from before p s after show ?thesis by blast
qed

lemma isl_decode_all:
  "isl (decode_all env es acc) \<longleftrightarrow> list_ex (\<lambda>kv. isl (decode_value env (snd kv))) es"
proof (induction es arbitrary: acc)
  case Nil
  show ?case by simp
next
  case (Cons e es)
  obtain name v where e: "e = (name, v)" by (cases e)
  show ?case by (cases "decode_value env v") (simp_all add: e Cons.IH)
qed

lemma decode_all_Inl:
  "decode_all env es acc = Inl e \<Longrightarrow> list_ex (\<lambda>kv. isl (decode_value env (snd kv))) es"
  using isl_decode_all [of env es acc] by simp

lemma decode_all_Inr:
  "decode_all env es acc = Inr hs \<Longrightarrow> \<not> list_ex (\<lambda>kv. isl (decode_value env (snd kv))) es"
  using isl_decode_all [of env es acc] by simp

lemma isl_deserialize:
  "isl (deserialize env serialized) \<longleftrightarrow>
     (case JSON_parse env serialized of
        None \<Rightarrow> True
      | Some o' \<Rightarrow> o' = JNull \<or> undecodable env o')"
proof (cases "JSON_parse env serialized")
  case None
  then show ?thesis by (simp add: deserialize_def)
next
  case (Some o')
  show ?thesis
    by (cases o')
      (auto simp: deserialize_def Some undecodable_def encoded_of_def
        simp del: entries.simps
        split: sum.splits dest: decode_all_Inl decode_all_Inr)
qed

text \<open>
  Claim C8 says that \<^verbatim>\<open>serialize\<close> never raises on a snapshot built through the
  interface, that \<^verbatim>\<open>deserialize\<close> raises if and only if the payload cannot be parsed as
  the expected structure or an encoded distribution cannot be decoded, and that it
  returns a snapshot on a payload that \<^verbatim>\<open>serialize\<close> produced. \<^verbatim>\<open>deserialize\<close> does not
  look at the structure of what it parsed. As amended: \<^verbatim>\<open>deserialize\<close> raises if and
  only if \<^verbatim>\<open>JSON.parse\<close> rejects the text, or the text parses to \<^verbatim>\<open>null\<close>, or the decoder
  rejects a value it is handed, where it is handed what \<^verbatim>\<open>L.reduce\<close> visits in
  \<^verbatim>\<open>encodedHistograms\<close>: every property of an object, but for an array, a string and
  an object with a valid \<^verbatim>\<open>length\<close> what they hold at the indices below their length;
  any other parsed value, with or without the two fields, gives a snapshot. On a snapshot
  built by calls under ordinary names, \<^verbatim>\<open>serialize\<close> returns the text \<^verbatim>\<open>JSON.stringify\<close>
  gives for the counters and the encoded histograms, and \<^verbatim>\<open>deserialize\<close> returns a
  snapshot on that text, given that \<^verbatim>\<open>JSON.parse\<close> reads back what \<^verbatim>\<open>serialize\<close> handed
  to \<^verbatim>\<open>JSON.stringify\<close> and that the decoder accepts what the encoder wrote for each
  histogram.
\<close>

theorem deserialize_raises_iff:
  fixes env :: "'h platform" and calls :: "call list"
  defines "S \<equiv> built env calls"
  shows "(isl (deserialize env serialized) \<longleftrightarrow>
       (case JSON_parse env serialized of
          None \<Rightarrow> True
        | Some o' \<Rightarrow> o' = JNull \<or> undecodable env o')) \<and>
    (ordinary_calls calls \<longrightarrow>
     fst (serialize env S) =
       JSON_stringify env
         (payload (s_counters S) (each_into (hdr_encodeIntoBase64String env) (s_customStats S)))) \<and>
    (ordinary_calls calls \<and>
     JSON_parse env (JSON_stringify env
        (payload (s_counters S) (each_into (hdr_encodeIntoBase64String env) (s_customStats S)))) =
       Some (payload (s_counters S)
         (each_into (hdr_encodeIntoBase64String env) (s_customStats S))) \<and>
     (\<forall>h \<in> snd ` set (s_customStats S).
        hdr_decodeFromCompressedBase64 env (hdr_encodeIntoBase64String env h) \<noteq> None) \<longrightarrow>
     \<not> isl (deserialize env (fst (serialize env S))))"
proof -
  have d: "distinct (map fst (s_customStats S))"
    unfolding S_def using distinct_built by blast
  show ?thesis
    using isl_deserialize [of env serialized] deserialize_serialized [OF d, of env]
    by (auto simp: serialize_def Let_def)
qed

theorem deserialize_raises_iff_witness:
  "isl (deserialize ref_platform ''{'') \<and>
   \<not> isl (deserialize ref_platform (fst (serialize ref_platform (built ref_platform
       [Counter ''scenarios.created'' 10, AddCustomStat ''engine.http.response_time'' 120]))))"
proof -
  let ?calls = "[Counter ''scenarios.created'' 10,
        AddCustomStat ''engine.http.response_time'' 120]"
  let ?S = "built ref_platform ?calls"
  have ord: "ordinary_calls ?calls"
    by (simp add: ordinary_calls_def ordinary_name_def special_names_def)
  have json: "JSON_parse ref_platform (JSON_stringify ref_platform
        (payload (s_counters ?S)
          (each_into (hdr_encodeIntoBase64String ref_platform) (s_customStats ?S)))) =
      Some (payload (s_counters ?S)
        (each_into (hdr_encodeIntoBase64String ref_platform) (s_customStats ?S)))"
    by code_simp
  have dec: "\<forall>h \<in> snd ` set (s_customStats ?S).
      hdr_decodeFromCompressedBase64 ref_platform (hdr_encodeIntoBase64String ref_platform h) \<noteq> None"
    by code_simp
  have bad: "JSON_parse ref_platform ''{'' = None" by code_simp
  note inst = deserialize_raises_iff [where env = ref_platform and serialized = "''{''"
      and calls = ?calls]
  from inst have "isl (deserialize ref_platform ''{'') \<longleftrightarrow>
      (case JSON_parse ref_platform ''{'' of None \<Rightarrow> True
       | Some o' \<Rightarrow> o' = JNull \<or> undecodable ref_platform o')"
    by blast
  then have a: "isl (deserialize ref_platform ''{'')"
    by (simp only: bad option.case)
  from inst ord json dec
  have b: "\<not> isl (deserialize ref_platform (fst (serialize ref_platform ?S)))"
    by blast
  from a b show ?thesis by (rule conjI)
qed

text \<open>
  The claim as stated fails in both directions: \<^verbatim>\<open>{}\<close> is not the expected structure,
  yet \<^verbatim>\<open>deserialize\<close> returns a snapshot, with \<^verbatim>\<open>undefined\<close> counters; \<^verbatim>\<open>null\<close> is valid
  JSON and holds no distribution, yet \<^verbatim>\<open>deserialize\<close> raises. An \<^verbatim>\<open>encodedHistograms\<close>
  object with \<^verbatim>\<open>length\<close> 0 and a number under \<^verbatim>\<open>a\<close> is not the expected structure
  either, and \<^verbatim>\<open>deserialize\<close> returns a snapshot: no value is handed to the decoder.
\<close>

theorem deserialize_raises_iff_counterexample:
  "JSON_parse ref_platform ''{}'' = Some (JObj []) \<and>
   malformed_payload ref_platform ''{}'' \<and>
   deserialize ref_platform ''{}'' = Inr \<lparr>p_counters = None, p_customStats = []\<rparr> \<and>
   JSON_parse ref_platform ''null'' = Some JNull \<and>
   entries (encoded_of JNull) = [] \<and>
   deserialize ref_platform ''null'' = Inl TypeError \<and>
   malformed_payload ref_platform
     (ref_stringify (JObj [(''encodedHistograms'', JObj [(''length'', JNum 0), (''a'', JNum 5)])])) \<and>
   deserialize ref_platform
     (ref_stringify (JObj [(''encodedHistograms'', JObj [(''length'', JNum 0), (''a'', JNum 5)])])) =
     Inr \<lparr>p_counters = None, p_customStats = []\<rparr>"
  by code_simp

lemma report_serialized: "report env (this\<lparr>s_encodedHistograms := e\<rparr>) = report env this"
  by (simp add: report_def split: option.splits)

text \<open>
  Claim C10: for every snapshot \<open>S\<close>, \<^verbatim>\<open>serialize\<close> leaves the counters and the
  histograms of \<open>S\<close> as they were, and \<^verbatim>\<open>report\<close> of \<open>S\<close> is the same before and after,
  although \<^verbatim>\<open>serialize\<close> stores the encoded histograms on \<open>S\<close> as one more field.
\<close>

theorem serialize_keeps_snapshot:
  "s_counters (snd (serialize env this)) = s_counters this \<and>
   s_customStats (snd (serialize env this)) = s_customStats this \<and>
   s_encodedHistograms (snd (serialize env this)) =
     Some (each_into (hdr_encodeIntoBase64String env) (s_customStats this)) \<and>
   report env (snd (serialize env this)) = report env this"
  by (simp add: serialize_def Let_def report_serialized)

theorem serialize_keeps_snapshot_witness:
  "report ref_platform (snd (serialize ref_platform (built ref_platform
      [Counter ''matches'' 2, AddCustomStat ''engine.http.response_time'' 120]))) =
   report ref_platform (built ref_platform
      [Counter ''matches'' 2, AddCustomStat ''engine.http.response_time'' 120]) \<and>
   s_encodedHistograms (snd (serialize ref_platform (built ref_platform
      [Counter ''matches'' 2, AddCustomStat ''engine.http.response_time'' 120]))) =
   Some [(''engine.http.response_time'', ''120'')]"
proof -
  have "each_into (hdr_encodeIntoBase64String ref_platform) (s_customStats (built ref_platform
      [Counter ''matches'' 2, AddCustomStat ''engine.http.response_time'' 120])) =
      [(''engine.http.response_time'', ''120'')]"
    by code_simp
  then show ?thesis
    using serialize_keeps_snapshot [where env = ref_platform and this = "built ref_platform
      [Counter ''matches'' 2, AddCustomStat ''engine.http.response_time'' 120]"]
    by simp
qed


section \<open>The report: properties\<close>

lemma collect_Nil: "collect p sep [] = []"
  by (simp add: collect_def)

text \<open>
  Claim C4 says that \<^verbatim>\<open>reset()\<close> and then \<^verbatim>\<open>report()\<close> succeeds, with all counters
  absent and no custom-stat entry. \<^verbatim>\<open>report\<close> reads the histogram
  \<^verbatim>\<open>engine.http.response_time\<close> without a test, and after \<^verbatim>\<open>reset\<close> there is none. As
  amended: after \<^verbatim>\<open>reset()\<close> the snapshot has no counter and no histogram, and
  \<^verbatim>\<open>report()\<close> on it raises a \<^verbatim>\<open>TypeError\<close>; once a response time has been recorded
  after the reset, \<^verbatim>\<open>report()\<close> succeeds, every field read from the counters is absent
  or empty, and the response-time histogram is the one custom-stat entry.
\<close>

theorem report_after_reset:
  "s_counters (reset this) = [] \<and> s_customStats (reset this) = [] \<and>
   report env (reset this) = Inl TypeError \<and>
   (\<exists>r. report env (addCustomStat env ''engine.http.response_time'' n (reset this)) = Inr r \<and>
      counters r = [] \<and> scenariosCreated r = None \<and> scenarioCounts r = [] \<and>
      scenariosCompleted r = None \<and> requestsCompleted r = None \<and> errors r = [] \<and>
      codes r = [] \<and> matches r = None \<and> scenariosAvoided r = None \<and>
      map fst (customStats r) = [''engine.http.response_time''])"
  by (simp add: reset_def report_def addCustomStat_def ensure_histogram_def on_histogram_def
      collect_Nil each_into_def)

text \<open>The claim as stated fails on a snapshot that held a response time before the reset.\<close>

theorem report_after_reset_counterexample:
  "report ref_platform (reset (built ref_platform
      [Counter ''scenarios.created'' 10, AddCustomStat ''engine.http.response_time'' 120])) =
   Inl TypeError"
  by code_simp

text \<open>
  Claim C5 says that \<open>rps.count\<close> is the counter \<^verbatim>\<open>engine.http.responses_received\<close> and
  that \<open>rps.mean\<close> is that count divided by the length of the reporting interval, which
  the caller supplies. \<^verbatim>\<open>report\<close> has no such parameter: the divisor is the literal
  \<open>10\<close>, under a comment \<^verbatim>\<open>FIXME: depends on the period\<close>. What the code computes:
  whenever \<^verbatim>\<open>report\<close> returns, \<open>rps.count\<close> is the counter and \<open>rps.mean\<close> is a tenth of
  it; 30 responses give a mean of 3 whatever the interval was.
\<close>

theorem report_rps_tenth:
  "(case report env this of
      Inl e \<Rightarrow> map_of (s_customStats this) ''engine.http.response_time'' = None
    | Inr r \<Rightarrow>
        rps_count (rps r) = map_of (s_counters this) ''engine.http.responses_received'' \<and>
        rps_mean (rps r) = map_option (\<lambda>n. of_int n / 10) (rps_count (rps r)))"
  by (simp add: report_def split: option.splits)

theorem report_rps_tenth_witness:
  "\<exists>r. report ref_platform (built ref_platform
      [Counter ''engine.http.responses_received'' 30,
       AddCustomStat ''engine.http.response_time'' 120]) = Inr r \<and>
     rps_count (rps r) = Some 30 \<and> rps_mean (rps r) = Some 3"
proof -
  let ?S = "built ref_platform
      [Counter ''engine.http.responses_received'' 30,
       AddCustomStat ''engine.http.response_time'' 120]"
  have c: "map_of (s_counters ?S) ''engine.http.responses_received'' = Some 30" by code_simp
  have h: "map_of (s_customStats ?S) ''engine.http.response_time'' \<noteq> None" by code_simp
  show ?thesis using report_rps_tenth [where env = ref_platform and this = ?S] c h
    by (cases "report ref_platform ?S") simp_all
qed

text \<open>
  Claim C7 says that \<^verbatim>\<open>report\<close> parses the counter keys by exact prefix: for a key
  \<^verbatim>\<open>scenarios.created.<name>\<close>, \<^verbatim>\<open>errors.<code>\<close> or \<^verbatim>\<open>engine.http.response_code.<code>\<close>
  the rest of the key is entered with the counter's value, and no other key makes an
  entry. On the keys of the claim's example the code does so. It departs from the claim
  on two kinds of key: \<open>codes\<close> tests the prefix \<^verbatim>\<open>engine.http.response_code\<close> without
  its dot, so a key such as \<^verbatim>\<open>engine.http.response_codes_seen\<close> makes an entry, under
  the name \<^verbatim>\<open>undefined\<close>; and the rest of the key is taken as \<^verbatim>\<open>split(prefix)[1]\<close>, which
  stops where the prefix occurs again, so \<^verbatim>\<open>errors.ENOENT: open errors.log\<close> is entered
  as \<^verbatim>\<open>ENOENT: open \<close>.
\<close>

theorem report_namespaces_evaluated:
  "\<exists>r. report ref_platform (built ref_platform
      [Counter ''scenarios.created'' 10, Counter ''scenarios.created.login'' 4,
       Counter ''scenarios.created.checkout'' 6,
       AddCustomStat ''engine.http.response_time'' 120,
       Counter ''engine.http.response_code.200'' 29,
       Counter ''engine.http.response_codes_seen'' 1,
       Counter ''errors.ENOENT: open errors.log'' 2]) = Inr r \<and>
     scenariosCreated r = Some 10 \<and>
     scenarioCounts r = [(''login'', 4), (''checkout'', 6)] \<and>
     codes r = [(''200'', 29), (''undefined'', 1)] \<and>
     errors r = [(''ENOENT: open '', 2)]"
proof -
  have "(case report ref_platform (built ref_platform
      [Counter ''scenarios.created'' 10, Counter ''scenarios.created.login'' 4,
       Counter ''scenarios.created.checkout'' 6,
       AddCustomStat ''engine.http.response_time'' 120,
       Counter ''engine.http.response_code.200'' 29,
       Counter ''engine.http.response_codes_seen'' 1,
       Counter ''errors.ENOENT: open errors.log'' 2]) of Inl e \<Rightarrow> False | Inr r \<Rightarrow>
     scenariosCreated r = Some 10 \<and>
     scenarioCounts r = [(''login'', 4), (''checkout'', 6)] \<and>
     codes r = [(''200'', 29), (''undefined'', 1)] \<and>
     errors r = [(''ENOENT: open '', 2)])"
    by code_simp
  then show ?thesis by (auto split: sum.splits)
qed

section \<open>Snapshots in a store: properties\<close>

lemma those_eq_None: "those (map f xs) = None \<longleftrightarrow> (\<exists>x \<in> set xs. f x = None)"
  by (induction xs) (auto split: option.splits)

lemma those_cong: "(\<And>x. x \<in> set xs \<Longrightarrow> f x = g x) \<Longrightarrow> those (map f xs) = those (map g xs)"
  by (rule arg_cong [where f = those]) (rule map_cong, simp_all)

lemma load_histograms_cong:
  "(\<And>r. r \<in> snd ` set m \<Longrightarrow> histograms \<tau> r = histograms \<sigma> r) \<Longrightarrow>
   load_histograms \<tau> m = load_histograms \<sigma> m"
  unfolding load_histograms_def by (rule those_cong) force

lemma load_histograms_defined:
  "load_histograms \<sigma> m \<noteq> None \<longleftrightarrow> (\<forall>r \<in> snd ` set m. histograms \<sigma> r \<noteq> None)"
  unfolding load_histograms_def those_eq_None by force

lemma load_histograms_definedD:
  "load_histograms \<sigma> m \<noteq> None \<Longrightarrow> \<forall>r \<in> snd ` set m. histograms \<sigma> r \<noteq> None"
  unfolding load_histograms_defined .

lemma load_histograms_definedI:
  "\<forall>r \<in> snd ` set m. histograms \<sigma> r \<noteq> None \<Longrightarrow> load_histograms \<sigma> m \<noteq> None"
  unfolding load_histograms_defined .

lemma agree_on_refl: "agree_on A \<sigma> \<sigma>"
  by (simp add: agree_on_def)

lemma agree_on_subset: "agree_on A \<sigma> \<tau> \<Longrightarrow> B \<subseteq> A \<Longrightarrow> agree_on B \<sigma> \<tau>"
  by (auto simp: agree_on_def)

lemma agree_on_trans: "agree_on A \<sigma> \<tau> \<Longrightarrow> agree_on A \<tau> \<upsilon> \<Longrightarrow> agree_on A \<sigma> \<upsilon>"
  by (simp add: agree_on_def)

lemma load_Some:
  "load \<sigma> this = Some S \<longleftrightarrow>
     (\<exists>c m e hs. stats_objs \<sigma> this = Some (c, m, e) \<and>
        number_objs \<sigma> c = Some (s_counters S) \<and> histogram_objs \<sigma> m = Some hs \<and>
        load_histograms \<sigma> hs = Some (s_customStats S) \<and>
        load_strings \<sigma> e = Some (s_encodedHistograms S))"
  by (cases S) (auto simp: load_def split: option.splits prod.splits)

lemma load_defined:
  "load \<sigma> this \<noteq> None \<longleftrightarrow>
     (\<exists>c m e cs hs. stats_objs \<sigma> this = Some (c, m, e) \<and> number_objs \<sigma> c = Some cs \<and>
        histogram_objs \<sigma> m = Some hs \<and> load_histograms \<sigma> hs \<noteq> None \<and>
        load_strings \<sigma> e \<noteq> None)"
  by (auto simp: load_def split: option.splits prod.splits)

lemma load_agree:
  assumes "agree_on (footprint \<sigma> this) \<sigma> \<tau>"
  shows "load \<tau> this = load \<sigma> this \<and> footprint \<tau> this = footprint \<sigma> this"
proof (cases "stats_objs \<sigma> this")
  case None
  moreover have "stats_objs \<tau> this = stats_objs \<sigma> this"
    using assms by (simp add: agree_on_def footprint_def)
  ultimately show ?thesis by (simp add: load_def footprint_def)
next
  case (Some cme)
  obtain c m e where cme: "cme = (c, m, e)" by (cases cme)
  have s: "stats_objs \<tau> this = Some (c, m, e)" "stats_objs \<sigma> this = Some (c, m, e)"
    using assms Some by (simp_all add: agree_on_def footprint_def cme)
  have c: "number_objs \<tau> c = number_objs \<sigma> c" and m: "histogram_objs \<tau> m = histogram_objs \<sigma> m"
    using assms by (simp_all add: agree_on_def footprint_def s)
  have e: "load_strings \<tau> e = load_strings \<sigma> e"
    using assms by (cases e) (simp_all add: agree_on_def footprint_def s load_strings_def)
  have h: "load_histograms \<tau> hs = load_histograms \<sigma> hs" if "histogram_objs \<sigma> m = Some hs" for hs
    by (rule load_histograms_cong) (use assms that in \<open>auto simp: agree_on_def footprint_def s\<close>)
  show ?thesis
    by (cases "histogram_objs \<sigma> m")
      (simp_all add: load_def footprint_def s c m e h split: option.splits)
qed


lemma load_strings_upd: "string_objs \<tau> = string_objs \<sigma> \<Longrightarrow> load_strings \<tau> e = load_strings \<sigma> e"
  by (cases e) (simp_all add: load_strings_def)

lemma load_histograms_upd:
  "histograms \<tau> = histograms \<sigma> \<Longrightarrow> load_histograms \<tau> hs = load_histograms \<sigma> hs"
  by (simp add: load_histograms_def)

lemma counter_at_frame:
  assumes "load \<sigma> this \<noteq> None"
  shows "\<exists>\<tau>. counter_at this name v \<sigma> = Some \<tau> \<and> load \<tau> this \<noteq> None \<and>
    agree_on (- footprint \<sigma> this) \<sigma> \<tau> \<and> next_ref \<tau> = next_ref \<sigma> \<and>
    footprint \<tau> this = footprint \<sigma> this"
proof -
  from assms obtain c m e cs hs where s: "stats_objs \<sigma> this = Some (c, m, e)"
    and c: "number_objs \<sigma> c = Some cs" and m: "histogram_objs \<sigma> m = Some hs"
    and h: "load_histograms \<sigma> hs \<noteq> None" and e: "load_strings \<sigma> e \<noteq> None"
    unfolding load_defined by blast
  let ?\<tau> = "\<sigma>\<lparr>number_objs := (number_objs \<sigma>)(c \<mapsto> add_to_counter name v cs)\<rparr>"
  have 1: "counter_at this name v \<sigma> = Some ?\<tau>" by (simp add: counter_at_def s c)
  have "load_histograms ?\<tau> hs = load_histograms \<sigma> hs"
    by (rule load_histograms_upd) simp
  moreover have "load_strings ?\<tau> e = load_strings \<sigma> e"
    by (rule load_strings_upd) simp
  ultimately have 2: "load ?\<tau> this \<noteq> None"
    unfolding load_defined using s m h e by simp
  have 3: "agree_on (- footprint \<sigma> this) \<sigma> ?\<tau>"
    by (simp add: agree_on_def footprint_def s)
  have 4: "footprint ?\<tau> this = footprint \<sigma> this" by (simp add: footprint_def s)
  show ?thesis using 1 2 3 4 by simp
qed

lemma set_update_subset: "set (AList.update k v al) \<subseteq> insert (k, v) (set al)"
  by (induction al) auto

lemma addCustomStat_at_frame:
  assumes "load \<sigma> this \<noteq> None"
  shows "\<exists>\<tau>. addCustomStat_at env this name n \<sigma> = Some \<tau> \<and> load \<tau> this \<noteq> None \<and>
    agree_on (- insert (next_ref \<sigma>) (footprint \<sigma> this)) \<sigma> \<tau> \<and>
    next_ref \<sigma> \<le> next_ref \<tau> \<and>
    footprint \<tau> this \<subseteq> footprint \<sigma> this \<union> {next_ref \<sigma>..<next_ref \<tau>}"
proof -
  from assms obtain c m e cs hs where s: "stats_objs \<sigma> this = Some (c, m, e)"
    and c: "number_objs \<sigma> c = Some cs" and m: "histogram_objs \<sigma> m = Some hs"
    and h: "load_histograms \<sigma> hs \<noteq> None" and e: "load_strings \<sigma> e \<noteq> None"
    unfolding load_defined by blast
  from h have hd: "\<forall>r \<in> snd ` set hs. histograms \<sigma> r \<noteq> None"
    by (rule load_histograms_definedD)
  show ?thesis
  proof (cases "map_of hs name")
    case None
    let ?r = "next_ref \<sigma>"
    let ?\<tau> = "\<sigma>\<lparr>histograms := (histograms \<sigma>)(?r \<mapsto> hdr_recordValue env (hdr_build env) n),
        histogram_objs := (histogram_objs \<sigma>)(m \<mapsto> AList.update name ?r hs),
        next_ref := Suc ?r\<rparr>"
    have 1: "addCustomStat_at env this name n \<sigma> = Some ?\<tau>"
      by (simp add: addCustomStat_at_def s m None)
    have sub: "snd ` set (AList.update name ?r hs) \<subseteq> insert ?r (snd ` set hs)"
      using set_update_subset [of name ?r hs] by force
    have "\<forall>r \<in> snd ` set (AList.update name ?r hs). histograms ?\<tau> r \<noteq> None"
    proof
      fix r
      assume "r \<in> snd ` set (AList.update name ?r hs)"
      then have "r = ?r \<or> r \<in> snd ` set hs" using sub by blast
      then show "histograms ?\<tau> r \<noteq> None" using hd by auto
    qed
    then have "load_histograms ?\<tau> (AList.update name ?r hs) \<noteq> None"
      by (rule load_histograms_definedI)
    moreover have "load_strings ?\<tau> e = load_strings \<sigma> e"
      by (rule load_strings_upd) simp
    ultimately have 2: "load ?\<tau> this \<noteq> None"
      unfolding load_defined using s c e by simp
    have 3: "agree_on (- insert ?r (footprint \<sigma> this)) \<sigma> ?\<tau>"
      by (simp add: agree_on_def footprint_def s)
    have 4: "footprint ?\<tau> this \<subseteq> footprint \<sigma> this \<union> {?r..<next_ref ?\<tau>}"
      using sub by (auto simp: footprint_def s m)
    show ?thesis using 1 2 3 4 by simp
  next
    case (Some r)
    then have r: "r \<in> snd ` set hs" by (force dest: map_of_SomeD)
    then obtain h0 where h0: "histograms \<sigma> r = Some h0" using hd by auto
    let ?\<tau> = "\<sigma>\<lparr>histograms := (histograms \<sigma>)(r \<mapsto> hdr_recordValue env h0 n)\<rparr>"
    have 1: "addCustomStat_at env this name n \<sigma> = Some ?\<tau>"
      by (simp add: addCustomStat_at_def s m Some h0)
    have "\<forall>r \<in> snd ` set hs. histograms ?\<tau> r \<noteq> None" using hd by auto
    then have "load_histograms ?\<tau> hs \<noteq> None"
      by (rule load_histograms_definedI)
    moreover have "load_strings ?\<tau> e = load_strings \<sigma> e"
      by (rule load_strings_upd) simp
    ultimately have 2: "load ?\<tau> this \<noteq> None"
      unfolding load_defined using s c m e by simp
    have 3: "agree_on (- insert (next_ref \<sigma>) (footprint \<sigma> this)) \<sigma> ?\<tau>"
      using r by (auto simp: agree_on_def footprint_def s m)
    have 4: "footprint ?\<tau> this = footprint \<sigma> this" by (simp add: footprint_def s)
    show ?thesis using 1 2 3 4 by simp
  qed
qed

lemma step_separate:
  assumes "separate \<sigma> a b"
  shows "\<exists>\<tau>. apply_call_at env a call \<sigma> = Some \<tau> \<and> separate \<tau> a b \<and> load \<tau> b = load \<sigma> b"
proof -
  from assms have la: "load \<sigma> a \<noteq> None" and lb: "load \<sigma> b \<noteq> None"
    and dis: "footprint \<sigma> a \<inter> footprint \<sigma> b = {}"
    and ba: "footprint \<sigma> a \<subseteq> {..<next_ref \<sigma>}" and bb: "footprint \<sigma> b \<subseteq> {..<next_ref \<sigma>}"
    by (simp_all add: separate_def)
  have "\<exists>\<tau>. apply_call_at env a call \<sigma> = Some \<tau> \<and> load \<tau> a \<noteq> None \<and>
    agree_on (- insert (next_ref \<sigma>) (footprint \<sigma> a)) \<sigma> \<tau> \<and>
    next_ref \<sigma> \<le> next_ref \<tau> \<and>
    footprint \<tau> a \<subseteq> footprint \<sigma> a \<union> {next_ref \<sigma>..<next_ref \<tau>}"
  proof (cases call)
    case (Counter name v)
    from counter_at_frame [OF la, of name v] obtain \<tau> where
      "counter_at a name v \<sigma> = Some \<tau>" "load \<tau> a \<noteq> None"
      "agree_on (- footprint \<sigma> a) \<sigma> \<tau>" "next_ref \<tau> = next_ref \<sigma>"
      "footprint \<tau> a = footprint \<sigma> a" by blast
    then show ?thesis
      using agree_on_subset [of "- footprint \<sigma> a" \<sigma> \<tau> "- insert (next_ref \<sigma>) (footprint \<sigma> a)"]
      by (auto simp: Counter)
  next
    case (AddCustomStat name n)
    then show ?thesis using addCustomStat_at_frame [OF la, of env name n] by simp
  qed
  then obtain \<tau> where 1: "apply_call_at env a call \<sigma> = Some \<tau>" and 2: "load \<tau> a \<noteq> None"
    and 3: "agree_on (- insert (next_ref \<sigma>) (footprint \<sigma> a)) \<sigma> \<tau>"
    and 4: "next_ref \<sigma> \<le> next_ref \<tau>"
    and 5: "footprint \<tau> a \<subseteq> footprint \<sigma> a \<union> {next_ref \<sigma>..<next_ref \<tau>}" by blast
  have "footprint \<sigma> b \<subseteq> - insert (next_ref \<sigma>) (footprint \<sigma> a)"
    using dis bb by auto
  with 3 have "agree_on (footprint \<sigma> b) \<sigma> \<tau>" by (rule agree_on_subset)
  then have 6: "load \<tau> b = load \<sigma> b" and 7: "footprint \<tau> b = footprint \<sigma> b"
    using load_agree by blast+
  have d': "footprint \<tau> a \<inter> footprint \<tau> b = {}"
    using 5 7 dis bb by fastforce
  have ba': "footprint \<tau> a \<subseteq> {..<next_ref \<tau>}"
    using 5 ba 4 by fastforce
  have bb': "footprint \<tau> b \<subseteq> {..<next_ref \<tau>}"
    using 7 bb 4 by fastforce
  have "separate \<tau> a b"
    unfolding separate_def using 2 lb 6 d' ba' bb' by simp
  with 1 6 show ?thesis by blast
qed

lemma run_separate:
  "separate \<sigma> a b \<Longrightarrow>
   \<exists>\<tau>. run_at env a calls \<sigma> = Some \<tau> \<and> separate \<tau> a b \<and> load \<tau> b = load \<sigma> b"
proof (induction calls arbitrary: \<sigma>)
  case Nil
  then show ?case by simp
next
  case (Cons call calls)
  from step_separate [OF Cons.prems, of env call] obtain \<tau> where
    1: "apply_call_at env a call \<sigma> = Some \<tau>" and 2: "separate \<tau> a b"
    and 3: "load \<tau> b = load \<sigma> b" by blast
  from Cons.IH [OF 2] obtain \<upsilon> where
    "run_at env a calls \<tau> = Some \<upsilon>" "separate \<upsilon> a b" "load \<upsilon> b = load \<tau> b" by blast
  then show ?case using 1 3 by simp
qed

lemma separate_sym: "separate \<sigma> a b \<Longrightarrow> separate \<sigma> b a"
  by (auto simp: separate_def)


lemma load_histograms_Nil [simp]: "load_histograms \<sigma> [] = Some []"
  by (simp add: load_histograms_def)

lemma load_histograms_Cons:
  "load_histograms \<sigma> ((name, r) # m) =
     (case histograms \<sigma> r of
        None \<Rightarrow> None
      | Some h \<Rightarrow> map_option ((#) (name, h)) (load_histograms \<sigma> m))"
  by (simp add: load_histograms_def split: option.splits)

lemma copy_histograms_spec:
  assumes "load_histograms \<sigma> hs = Some hv" and "snd ` set hs \<subseteq> {..<next_ref \<sigma>}"
  shows "\<exists>hs' \<sigma>1. copy_histograms hs \<sigma> = Some (hs', \<sigma>1) \<and>
     next_ref \<sigma> \<le> next_ref \<sigma>1 \<and>
     agree_on {..<next_ref \<sigma>} \<sigma> \<sigma>1 \<and>
     snd ` set hs' \<subseteq> {next_ref \<sigma>..<next_ref \<sigma>1} \<and>
     load_histograms \<sigma>1 hs' = Some hv \<and> distinct (map snd hs') \<and>
     stats_objs \<sigma>1 = stats_objs \<sigma> \<and> number_objs \<sigma>1 = number_objs \<sigma> \<and>
     histogram_objs \<sigma>1 = histogram_objs \<sigma> \<and> string_objs \<sigma>1 = string_objs \<sigma>"
  using assms
proof (induction hs arbitrary: \<sigma> hv)
  case Nil
  then show ?case by (simp add: agree_on_refl)
next
  case (Cons e rest)
  obtain name r where e: "e = (name, r)" by (cases e)
  from Cons.prems(1) obtain h hv' where h: "histograms \<sigma> r = Some h"
    and rest: "load_histograms \<sigma> rest = Some hv'" and hv: "hv = (name, h) # hv'"
    by (auto simp: e load_histograms_Cons split: option.splits)
  let ?n = "next_ref \<sigma>"
  let ?\<sigma> = "\<sigma>\<lparr>histograms := (histograms \<sigma>)(?n \<mapsto> h), next_ref := Suc ?n\<rparr>"
  have below: "snd ` set rest \<subseteq> {..<?n}" using Cons.prems(2) by (simp add: e)
  have "load_histograms ?\<sigma> rest = load_histograms \<sigma> rest"
    by (rule load_histograms_cong) (use below in auto)
  then have 1: "load_histograms ?\<sigma> rest = Some hv'" by (simp add: rest)
  have 2: "snd ` set rest \<subseteq> {..<next_ref ?\<sigma>}" using below by auto
  from Cons.IH [OF 1 2] obtain hs' \<sigma>1 where
    c: "copy_histograms rest ?\<sigma> = Some (hs', \<sigma>1)"
    and n: "next_ref ?\<sigma> \<le> next_ref \<sigma>1"
    and a: "agree_on {..<next_ref ?\<sigma>} ?\<sigma> \<sigma>1"
    and s: "snd ` set hs' \<subseteq> {next_ref ?\<sigma>..<next_ref \<sigma>1}"
    and l: "load_histograms \<sigma>1 hs' = Some hv'"
    and d: "distinct (map snd hs')"
    and f: "stats_objs \<sigma>1 = stats_objs ?\<sigma>" "number_objs \<sigma>1 = number_objs ?\<sigma>"
      "histogram_objs \<sigma>1 = histogram_objs ?\<sigma>" "string_objs \<sigma>1 = string_objs ?\<sigma>"
    by blast
  have c': "copy_histograms (e # rest) \<sigma> = Some ((name, ?n) # hs', \<sigma>1)"
    by (simp add: e h c)
  have n': "?n \<le> next_ref \<sigma>1" using n by simp
  have a': "agree_on {..<?n} \<sigma> \<sigma>1"
    using a by (auto simp: agree_on_def)
  have s': "snd ` set ((name, ?n) # hs') \<subseteq> {?n..<next_ref \<sigma>1}"
    using s n by auto
  have "histograms \<sigma>1 ?n = Some h" using a by (simp add: agree_on_def)
  then have l': "load_histograms \<sigma>1 ((name, ?n) # hs') = Some hv"
    by (simp add: load_histograms_Cons l hv)
  have d': "distinct (map snd ((name, ?n) # hs'))"
    using d s by auto
  show ?case using c' n' a' s' l' d' f by simp
qed

lemma copy_strings_spec:
  assumes "load_strings \<sigma> e = Some enc" and "set_option e \<subseteq> {..<next_ref \<sigma>}"
  shows "\<exists>e' \<sigma>2. copy_strings e \<sigma> = Some (e', \<sigma>2) \<and>
     next_ref \<sigma> \<le> next_ref \<sigma>2 \<and>
     agree_on {..<next_ref \<sigma>} \<sigma> \<sigma>2 \<and>
     set_option e' \<subseteq> {next_ref \<sigma>..<next_ref \<sigma>2} \<and>
     load_strings \<sigma>2 e' = Some enc \<and>
     stats_objs \<sigma>2 = stats_objs \<sigma> \<and> number_objs \<sigma>2 = number_objs \<sigma> \<and>
     histogram_objs \<sigma>2 = histogram_objs \<sigma> \<and> histograms \<sigma>2 = histograms \<sigma>"
proof (cases e)
  case None
  then show ?thesis using assms by (simp add: copy_strings_def load_strings_def agree_on_refl)
next
  case (Some er)
  then obtain x where x: "string_objs \<sigma> er = Some x" and enc: "enc = Some x"
    using assms(1) by (auto simp: load_strings_def)
  show ?thesis
    by (simp add: copy_strings_def Some x enc load_strings_def agree_on_def)
qed

lemma clone_spec:
  assumes "load \<sigma> this = Some S" and "footprint \<sigma> this \<subseteq> {..<next_ref \<sigma>}"
  shows "\<exists>c \<sigma>'. clone this \<sigma> = Some (c, \<sigma>') \<and> load \<sigma>' c = Some S \<and>
     load \<sigma>' this = Some S \<and> separate \<sigma>' c this \<and> unshared \<sigma>' c \<and>
     unshared \<sigma>' this = unshared \<sigma> this"
proof -
  from assms(1) obtain c m e hs where s: "stats_objs \<sigma> this = Some (c, m, e)"
    and c: "number_objs \<sigma> c = Some (s_counters S)" and m: "histogram_objs \<sigma> m = Some hs"
    and h: "load_histograms \<sigma> hs = Some (s_customStats S)"
    and le: "load_strings \<sigma> e = Some (s_encodedHistograms S)"
    unfolding load_Some by blast
  let ?n = "next_ref \<sigma>"
  have hb: "snd ` set hs \<subseteq> {..<?n}" and eb: "set_option e \<subseteq> {..<?n}"
    using assms(2) by (auto simp: footprint_def s m)
  from copy_histograms_spec [OF h hb] obtain hs' \<sigma>1 where
    c1: "copy_histograms hs \<sigma> = Some (hs', \<sigma>1)"
    and n1: "?n \<le> next_ref \<sigma>1"
    and a1: "agree_on {..<?n} \<sigma> \<sigma>1"
    and s1: "snd ` set hs' \<subseteq> {?n..<next_ref \<sigma>1}"
    and l1: "load_histograms \<sigma>1 hs' = Some (s_customStats S)"
    and d1: "distinct (map snd hs')"
    and f1: "stats_objs \<sigma>1 = stats_objs \<sigma>" "number_objs \<sigma>1 = number_objs \<sigma>"
      "histogram_objs \<sigma>1 = histogram_objs \<sigma>" "string_objs \<sigma>1 = string_objs \<sigma>"
    by blast
  have le1: "load_strings \<sigma>1 e = Some (s_encodedHistograms S)"
    using le load_strings_upd [OF f1(4), of e] by simp
  have eb1: "set_option e \<subseteq> {..<next_ref \<sigma>1}" using eb n1 by auto
  from copy_strings_spec [OF le1 eb1] obtain e' \<sigma>2 where
    c2: "copy_strings e \<sigma>1 = Some (e', \<sigma>2)"
    and n2: "next_ref \<sigma>1 \<le> next_ref \<sigma>2"
    and a2: "agree_on {..<next_ref \<sigma>1} \<sigma>1 \<sigma>2"
    and s2: "set_option e' \<subseteq> {next_ref \<sigma>1..<next_ref \<sigma>2}"
    and l2: "load_strings \<sigma>2 e' = Some (s_encodedHistograms S)"
    and f2: "stats_objs \<sigma>2 = stats_objs \<sigma>1" "number_objs \<sigma>2 = number_objs \<sigma>1"
      "histogram_objs \<sigma>2 = histogram_objs \<sigma>1" "histograms \<sigma>2 = histograms \<sigma>1"
    by blast
  let ?c = "next_ref \<sigma>2"
  let ?m = "Suc ?c"
  let ?t = "Suc ?m"
  let ?\<sigma> = "\<sigma>2\<lparr>number_objs := (number_objs \<sigma>2)(?c \<mapsto> s_counters S),
      histogram_objs := (histogram_objs \<sigma>2)(?m \<mapsto> hs'),
      stats_objs := (stats_objs \<sigma>2)(?t \<mapsto> (?c, ?m, e')),
      next_ref := Suc ?t\<rparr>"
  have cl: "clone this \<sigma> = Some (?t, ?\<sigma>)"
    by (simp add: clone_def s c m c1 c2 Let_def)
  have "load_histograms ?\<sigma> hs' = load_histograms \<sigma>1 hs'"
    by (rule load_histograms_upd) (simp add: f2)
  moreover have "load_strings ?\<sigma> e' = load_strings \<sigma>2 e'"
    by (rule load_strings_upd) simp
  ultimately have lc: "load ?\<sigma> ?t = Some S"
    unfolding load_Some by (simp add: l1 l2)
  have "agree_on {..<?n} \<sigma>1 \<sigma>2" using a2 n1 by (auto simp: agree_on_def)
  moreover have "agree_on {..<?n} \<sigma>2 ?\<sigma>" using n1 n2 by (auto simp: agree_on_def)
  ultimately have "agree_on {..<?n} \<sigma> ?\<sigma>"
    using a1 by (blast intro: agree_on_trans)
  then have "agree_on (footprint \<sigma> this) \<sigma> ?\<sigma>"
    using assms(2) by (rule agree_on_subset)
  then have lt: "load ?\<sigma> this = Some S" and ft: "footprint ?\<sigma> this = footprint \<sigma> this"
    using load_agree [of \<sigma> this ?\<sigma>] assms(1) by simp_all
  have fc: "footprint ?\<sigma> ?t \<subseteq> {?n..<next_ref ?\<sigma>}"
    using s1 s2 n1 n2 by (auto simp: footprint_def)
  have sep: "separate ?\<sigma> ?t this"
    unfolding separate_def using lc lt ft fc assms(2) n1 n2 by fastforce
  have uc: "unshared ?\<sigma> ?t" using d1 by (simp add: unshared_def)
  have "this < ?n" using assms(2) by (auto simp: footprint_def)
  moreover have "m < ?n" using assms(2) by (auto simp: footprint_def s)
  ultimately have ut: "unshared ?\<sigma> this = unshared \<sigma> this"
    using n1 n2 by (simp add: unshared_def f1 f2 s)
  from cl lc lt sep uc ut show ?thesis by blast
qed

lemma sample_store_built:
  "run_at ref_platform 2
      [Counter ''matches'' 3, AddCustomStat ''engine.http.response_time'' 120]
      (snd (create_at empty_store)) = Some sample_store"
proof -
  have "double_add 0 3 = 3"
    using double_add_exact [of 0 3] by simp
  then show ?thesis
    by (simp add: create_at_def empty_store_def Let_def counter_at_def addCustomStat_at_def
        add_to_counter_def falsy_def ref_platform_def ref_recordValue_def numeral_eq_Suc
        sample_store_def)
qed

lemma load_histograms_keys:
  "load_histograms \<sigma> hs = Some hv \<Longrightarrow> map fst hv = map fst hs"
proof (induction hs arbitrary: hv)
  case Nil
  then show ?case by simp
next
  case (Cons e hs)
  obtain name r where e: "e = (name, r)" by (cases e)
  from Cons.prems obtain h hv' where "load_histograms \<sigma> hs = Some hv'" "hv = (name, h) # hv'"
    by (auto simp: e load_histograms_Cons split: option.splits)
  then show ?case using Cons.IH by (simp add: e)
qed

lemma load_histograms_append:
  "load_histograms \<sigma> hs = Some hv \<Longrightarrow> histograms \<sigma> r = Some h \<Longrightarrow>
   load_histograms \<sigma> (hs @ [(name, r)]) = Some (hv @ [(name, h)])"
proof (induction hs arbitrary: hv)
  case Nil
  then show ?case by (simp add: load_histograms_Cons)
next
  case (Cons e hs)
  obtain k r' where e: "e = (k, r')" by (cases e)
  from Cons.prems(1) obtain h' hv' where h': "histograms \<sigma> r' = Some h'"
    and l: "load_histograms \<sigma> hs = Some hv'" and hv: "hv = (k, h') # hv'"
    by (auto simp: e load_histograms_Cons split: option.splits)
  show ?case using Cons.IH [OF l Cons.prems(2)] by (simp add: e load_histograms_Cons h' hv)
qed

lemma load_histograms_record:
  "distinct (map snd hs) \<Longrightarrow> map_of hs name = Some r \<Longrightarrow> load_histograms \<sigma> hs = Some hv \<Longrightarrow>
   load_histograms (\<sigma>\<lparr>histograms := (histograms \<sigma>)(r \<mapsto> x)\<rparr>) hs =
     Some (AList.update name x hv)"
proof (induction hs arbitrary: hv)
  case Nil
  then show ?case by simp
next
  case (Cons e hs)
  obtain k r' where e: "e = (k, r')" by (cases e)
  let ?\<tau> = "\<sigma>\<lparr>histograms := (histograms \<sigma>)(r \<mapsto> x)\<rparr>"
  from Cons.prems(3) obtain h' hv' where h': "histograms \<sigma> r' = Some h'"
    and l: "load_histograms \<sigma> hs = Some hv'" and hv: "hv = (k, h') # hv'"
    by (auto simp: e load_histograms_Cons split: option.splits)
  have d: "distinct (map snd hs)" and fresh: "r' \<notin> snd ` set hs"
    using Cons.prems(1) by (simp_all add: e)
  show ?case
  proof (cases "k = name")
    case True
    then have r: "r' = r" using Cons.prems(2) by (simp add: e)
    have "load_histograms ?\<tau> hs = load_histograms \<sigma> hs"
      by (rule load_histograms_cong) (use fresh r in auto)
    then have keep: "load_histograms ?\<tau> hs = Some hv'" by (simp only: l)
    have hr: "histograms ?\<tau> r = Some x" by simp
    show ?thesis
      unfolding e hv True r load_histograms_Cons hr keep by simp
  next
    case False
    then have m: "map_of hs name = Some r" using Cons.prems(2) by (simp add: e)
    then have "r \<in> snd ` set hs" by (force dest: map_of_SomeD)
    then have ne: "r' \<noteq> r" using fresh by auto
    have hr: "histograms ?\<tau> r' = Some h'" using ne h' by simp
    have ih: "load_histograms ?\<tau> hs = Some (AList.update name x hv')"
      by (rule Cons.IH [OF d m l])
    show ?thesis
      unfolding e hv load_histograms_Cons hr ih using False by simp
  qed
qed

lemma load_histograms_lookup:
  "load_histograms \<sigma> hs = Some hv \<Longrightarrow>
   map_of hv name = Option.bind (map_of hs name) (histograms \<sigma>)"
proof (induction hs arbitrary: hv)
  case Nil
  then show ?case by simp
next
  case (Cons e hs)
  obtain k r' where e: "e = (k, r')" by (cases e)
  from Cons.prems obtain h' hv' where h': "histograms \<sigma> r' = Some h'"
    and l: "load_histograms \<sigma> hs = Some hv'" and hv: "hv = (k, h') # hv'"
    by (auto simp: e load_histograms_Cons split: option.splits)
  show ?case using Cons.IH [OF l] by (simp add: e hv h')
qed

lemma update_last_entry:
  "name \<notin> fst ` set al \<Longrightarrow> AList.update name v (al @ [(name, b)]) = al @ [(name, v)]"
  by (induction al) auto

lemma map_of_last_entry:
  "name \<notin> fst ` set al \<Longrightarrow> map_of (al @ [(name, b)]) name = Some b"
  by (induction al) auto

lemma counter_at_load:
  assumes "load \<sigma> this = Some S"
  shows "\<exists>\<tau>. counter_at this name v \<sigma> = Some \<tau> \<and> load \<tau> this = Some (counter name v S) \<and>
    unshared \<tau> this = unshared \<sigma> this"
proof -
  from assms obtain c m e hs where s: "stats_objs \<sigma> this = Some (c, m, e)"
    and c: "number_objs \<sigma> c = Some (s_counters S)" and m: "histogram_objs \<sigma> m = Some hs"
    and h: "load_histograms \<sigma> hs = Some (s_customStats S)"
    and le: "load_strings \<sigma> e = Some (s_encodedHistograms S)"
    unfolding load_Some by blast
  let ?\<tau> = "\<sigma>\<lparr>number_objs := (number_objs \<sigma>)(c \<mapsto> add_to_counter name v (s_counters S))\<rparr>"
  have 1: "counter_at this name v \<sigma> = Some ?\<tau>" by (simp add: counter_at_def s c)
  have "load_histograms ?\<tau> hs = load_histograms \<sigma> hs"
    by (rule load_histograms_upd) simp
  moreover have "load_strings ?\<tau> e = load_strings \<sigma> e"
    by (rule load_strings_upd) simp
  ultimately have 2: "load ?\<tau> this = Some (counter name v S)"
    unfolding load_Some by (simp add: s m h le counter_def)
  have 3: "unshared ?\<tau> this = unshared \<sigma> this" by (simp add: unshared_def s)
  show ?thesis using 1 2 3 by simp
qed

lemma addCustomStat_at_load:
  assumes "load \<sigma> this = Some S" and "unshared \<sigma> this"
    and "footprint \<sigma> this \<subseteq> {..<next_ref \<sigma>}"
  shows "\<exists>\<tau>. addCustomStat_at env this name n \<sigma> = Some \<tau> \<and>
    load \<tau> this = Some (addCustomStat env name n S) \<and> unshared \<tau> this"
proof -
  from assms(1) obtain c m e hs where s: "stats_objs \<sigma> this = Some (c, m, e)"
    and c: "number_objs \<sigma> c = Some (s_counters S)" and m: "histogram_objs \<sigma> m = Some hs"
    and h: "load_histograms \<sigma> hs = Some (s_customStats S)"
    and le: "load_strings \<sigma> e = Some (s_encodedHistograms S)"
    unfolding load_Some by blast
  have d: "distinct (map snd hs)" using assms(2) by (simp add: unshared_def s m)
  have below: "snd ` set hs \<subseteq> {..<next_ref \<sigma>}" using assms(3) by (auto simp: footprint_def s m)
  have look: "map_of (s_customStats S) name = Option.bind (map_of hs name) (histograms \<sigma>)"
    using h by (rule load_histograms_lookup)
  show ?thesis
  proof (cases "map_of hs name")
    case None
    let ?r = "next_ref \<sigma>"
    let ?x = "hdr_recordValue env (hdr_build env) n"
    let ?\<tau> = "\<sigma>\<lparr>histograms := (histograms \<sigma>)(?r \<mapsto> ?x),
        histogram_objs := (histogram_objs \<sigma>)(m \<mapsto> AList.update name ?r hs),
        next_ref := Suc ?r\<rparr>"
    have 1: "addCustomStat_at env this name n \<sigma> = Some ?\<tau>"
      by (simp add: addCustomStat_at_def s m None)
    have fresh: "name \<notin> fst ` set hs" using None by (simp add: map_of_eq_None_iff)
    then have fresh': "name \<notin> fst ` set (s_customStats S)"
      using load_histograms_keys [OF h] by (metis set_map)
    have "load_histograms ?\<tau> hs = load_histograms \<sigma> hs"
      by (rule load_histograms_cong) (use below in auto)
    then have "load_histograms ?\<tau> (hs @ [(name, ?r)]) = Some (s_customStats S @ [(name, ?x)])"
      using h by (intro load_histograms_append) simp_all
    moreover have "load_strings ?\<tau> e = load_strings \<sigma> e"
      by (rule load_strings_upd) simp
    moreover have "addCustomStat env name n S =
        S\<lparr>s_customStats := s_customStats S @ [(name, ?x)]\<rparr>"
      using look None
      by (simp add: addCustomStat_def ensure_histogram_def on_histogram_def
          update_fresh [OF fresh'] map_add_def update_last_entry [OF fresh'])
    ultimately have 2: "load ?\<tau> this = Some (addCustomStat env name n S)"
      unfolding load_Some by (simp add: s c le update_fresh [OF fresh])
    have "?r \<notin> snd ` set hs" using below by auto
    then have 3: "unshared ?\<tau> this"
      using d by (simp add: unshared_def s update_fresh [OF fresh])
    show ?thesis using 1 2 3 by simp
  next
    case (Some r)
    then have r: "r \<in> snd ` set hs" by (force dest: map_of_SomeD)
    then obtain h0 where h0: "histograms \<sigma> r = Some h0"
      using load_histograms_definedD [of \<sigma> hs] h by auto
    let ?x = "hdr_recordValue env h0 n"
    let ?\<tau> = "\<sigma>\<lparr>histograms := (histograms \<sigma>)(r \<mapsto> ?x)\<rparr>"
    have 1: "addCustomStat_at env this name n \<sigma> = Some ?\<tau>"
      by (simp add: addCustomStat_at_def s m Some h0)
    have "load_histograms ?\<tau> hs = Some (AList.update name ?x (s_customStats S))"
      using d Some h by (rule load_histograms_record)
    moreover have "load_strings ?\<tau> e = load_strings \<sigma> e"
      by (rule load_strings_upd) simp
    moreover have "addCustomStat env name n S =
        S\<lparr>s_customStats := AList.update name ?x (s_customStats S)\<rparr>"
      using look Some h0
      by (simp add: addCustomStat_def ensure_histogram_def on_histogram_def)
    ultimately have 2: "load ?\<tau> this = Some (addCustomStat env name n S)"
      unfolding load_Some by (simp add: s c m le)
    have 3: "unshared ?\<tau> this" using d by (simp add: unshared_def s m)
    show ?thesis using 1 2 3 by simp
  qed
qed


lemma step_both:
  assumes sep: "separate \<sigma> a b" and un: "unshared \<sigma> a" and la: "load \<sigma> a = Some S"
  shows "\<exists>\<tau>. apply_call_at env a call \<sigma> = Some \<tau> \<and> separate \<tau> a b \<and> unshared \<tau> a \<and>
    load \<tau> a = Some (apply_call env S call) \<and> load \<tau> b = load \<sigma> b"
proof -
  from step_separate [OF sep, of env call] obtain \<tau> where
    1: "apply_call_at env a call \<sigma> = Some \<tau>" and 2: "separate \<tau> a b"
    and 3: "load \<tau> b = load \<sigma> b" by blast
  have ba: "footprint \<sigma> a \<subseteq> {..<next_ref \<sigma>}" using sep by (simp add: separate_def)
  have "\<exists>\<tau>'. apply_call_at env a call \<sigma> = Some \<tau>' \<and>
      load \<tau>' a = Some (apply_call env S call) \<and> unshared \<tau>' a"
  proof (cases call)
    case (Counter name v)
    then show ?thesis using counter_at_load [OF la, of name v] un by auto
  next
    case (AddCustomStat name n)
    then show ?thesis using addCustomStat_at_load [OF la un ba, of env name n] by auto
  qed
  with 1 2 3 show ?thesis by auto
qed

lemma run_both:
  "separate \<sigma> a b \<Longrightarrow> unshared \<sigma> a \<Longrightarrow> load \<sigma> a = Some S \<Longrightarrow>
   \<exists>\<tau>. run_at env a calls \<sigma> = Some \<tau> \<and> separate \<tau> a b \<and> unshared \<tau> a \<and>
     load \<tau> a = Some (foldl (apply_call env) S calls) \<and> load \<tau> b = load \<sigma> b"
proof (induction calls arbitrary: \<sigma> S)
  case Nil
  then show ?case by simp
next
  case (Cons call calls)
  from step_both [OF Cons.prems, of env call] obtain \<tau> where
    1: "apply_call_at env a call \<sigma> = Some \<tau>" and 2: "separate \<tau> a b"
    and 3: "unshared \<tau> a" and 4: "load \<tau> a = Some (apply_call env S call)"
    and 5: "load \<tau> b = load \<sigma> b" by blast
  from Cons.IH [OF 2 3 4] obtain \<upsilon> where
    "run_at env a calls \<tau> = Some \<upsilon>" "separate \<upsilon> a b" "unshared \<upsilon> a"
    "load \<upsilon> a = Some (foldl (apply_call env) (apply_call env S call) calls)"
    "load \<upsilon> b = load \<tau> b" by blast
  then show ?case using 1 5 by simp
qed

text \<open>
  Claim C9: for every snapshot \<open>S\<close>, \<^verbatim>\<open>clone()\<close> returns a snapshot whose counters and
  histograms are duplicates of those of \<open>S\<close> and independent of them: whatever sequence
  of \<^verbatim>\<open>counter\<close> and \<^verbatim>\<open>addCustomStat\<close> calls (and \<^verbatim>\<open>free\<close>) is made on the clone, the
  counters, the histograms and the report of \<open>S\<close> stay as they were, and the other way
  round. In the store: the clone is a new reference that stands for the same snapshot
  value and reaches none of the objects \<open>S\<close> reaches; calls on one of the two change it
  as the calls change a snapshot value, and leave the other one as it was. The store is
  well formed at \<open>S\<close>: its objects have been handed out, and no two names of \<open>S\<close> share
  a histogram object.
\<close>

theorem clone_independent:
  assumes "load \<sigma> this = Some S" and "footprint \<sigma> this \<subseteq> {..<next_ref \<sigma>}"
    and "unshared \<sigma> this"
  shows "\<exists>c \<sigma>'. clone this \<sigma> = Some (c, \<sigma>') \<and> c \<noteq> this \<and>
    load \<sigma>' c = Some S \<and> load \<sigma>' this = Some S \<and>
    footprint \<sigma>' c \<inter> footprint \<sigma>' this = {} \<and>
    (\<forall>calls. \<exists>\<tau>. run_at env c calls \<sigma>' = Some \<tau> \<and> free_at c \<tau> = Some \<tau> \<and>
       load \<tau> c = Some (foldl (apply_call env) S calls) \<and>
       load \<tau> this = Some S \<and> report_at env this \<tau> = Some (report env S)) \<and>
    (\<forall>calls. \<exists>\<tau>. run_at env this calls \<sigma>' = Some \<tau> \<and> free_at this \<tau> = Some \<tau> \<and>
       load \<tau> this = Some (foldl (apply_call env) S calls) \<and>
       load \<tau> c = Some S \<and> report_at env c \<tau> = Some (report env S))"
proof -
  from clone_spec [OF assms(1,2)] obtain c \<sigma>' where cl: "clone this \<sigma> = Some (c, \<sigma>')"
    and lc: "load \<sigma>' c = Some S" and lt: "load \<sigma>' this = Some S"
    and sep: "separate \<sigma>' c this" and uc: "unshared \<sigma>' c"
    and ut: "unshared \<sigma>' this = unshared \<sigma> this" by blast
  have dis: "footprint \<sigma>' c \<inter> footprint \<sigma>' this = {}"
    using sep by (simp add: separate_def)
  have "c \<in> footprint \<sigma>' c" "this \<in> footprint \<sigma>' this" by (simp_all add: footprint_def)
  with dis have ne: "c \<noteq> this" by auto
  have 1: "\<exists>\<tau>. run_at env c calls \<sigma>' = Some \<tau> \<and> free_at c \<tau> = Some \<tau> \<and>
       load \<tau> c = Some (foldl (apply_call env) S calls) \<and>
       load \<tau> this = Some S \<and> report_at env this \<tau> = Some (report env S)" for calls
    using run_both [OF sep uc lc, of env calls] lt by (auto simp: free_at_def report_at_def)
  have ut': "unshared \<sigma>' this" using ut assms(3) by simp
  have 2: "\<exists>\<tau>. run_at env this calls \<sigma>' = Some \<tau> \<and> free_at this \<tau> = Some \<tau> \<and>
       load \<tau> this = Some (foldl (apply_call env) S calls) \<and>
       load \<tau> c = Some S \<and> report_at env c \<tau> = Some (report env S)" for calls
    using run_both [OF separate_sym [OF sep] ut' lt, of env calls] lc
    by (auto simp: free_at_def report_at_def)
  show ?thesis using cl ne lc lt dis 1 2 by blast
qed


theorem clone_independent_witness:
  "\<exists>c \<sigma>'. clone 2 sample_store = Some (c, \<sigma>') \<and> c \<noteq> 2 \<and>
    load \<sigma>' c = Some \<lparr>s_counters = [(''matches'', 3)],
       s_customStats = [(''engine.http.response_time'', [120])], s_encodedHistograms = None\<rparr> \<and>
    (\<exists>\<tau>. run_at ref_platform c
         [Counter ''matches'' 1, AddCustomStat ''engine.http.response_time'' 80] \<sigma>' = Some \<tau> \<and>
       load \<tau> c = Some \<lparr>s_counters = [(''matches'', 4)],
         s_customStats = [(''engine.http.response_time'', [80, 120])],
         s_encodedHistograms = None\<rparr> \<and>
       load \<tau> 2 = Some \<lparr>s_counters = [(''matches'', 3)],
         s_customStats = [(''engine.http.response_time'', [120])],
         s_encodedHistograms = None\<rparr>)"
proof -
  let ?S = "\<lparr>s_counters = [(''matches'', 3)],
       s_customStats = [(''engine.http.response_time'', [120::nat])],
       s_encodedHistograms = None\<rparr>"
  have l: "load sample_store 2 = Some ?S"
    by (simp add: load_def sample_store_def load_histograms_def load_strings_def)
  have f: "footprint sample_store 2 \<subseteq> {..<next_ref sample_store}"
    by (simp add: footprint_def sample_store_def)
  have u: "unshared sample_store 2"
    by (simp add: unshared_def sample_store_def)
  have v: "foldl (apply_call ref_platform) ?S
      [Counter ''matches'' 1, AddCustomStat ''engine.http.response_time'' 80] =
    \<lparr>s_counters = [(''matches'', 4)],
      s_customStats = [(''engine.http.response_time'', [80, 120])],
      s_encodedHistograms = None\<rparr>"
    by code_simp
  from clone_independent [OF l f u, of ref_platform] obtain c \<sigma>' where
    1: "clone 2 sample_store = Some (c, \<sigma>')" "c \<noteq> 2" "load \<sigma>' c = Some ?S"
    and 2: "\<forall>calls. \<exists>\<tau>. run_at ref_platform c calls \<sigma>' = Some \<tau> \<and> free_at c \<tau> = Some \<tau> \<and>
       load \<tau> c = Some (foldl (apply_call ref_platform) ?S calls) \<and>
       load \<tau> 2 = Some ?S \<and> report_at ref_platform 2 \<tau> = Some (report ref_platform ?S)"
    by blast
  from 2 obtain \<tau> where "run_at ref_platform c
         [Counter ''matches'' 1, AddCustomStat ''engine.http.response_time'' 80] \<sigma>' = Some \<tau>"
    "load \<tau> c = Some (foldl (apply_call ref_platform) ?S
         [Counter ''matches'' 1, AddCustomStat ''engine.http.response_time'' 80])"
    "load \<tau> 2 = Some ?S" by blast
  with 1 v show ?thesis by auto
qed

end
